theory Spec2Isabelle
  imports Main "HOL-Library.Word"
begin

section \<open>Python values and exceptions\<close>

text \<open>
  The values that \<^verbatim>\<open>response.json()\<close> can return: \<^verbatim>\<open>None\<close>, booleans, integers,
  floats (a double, kept as its 64 bits), strings, lists and dicts. A dict is an association
  list read with \<open>map_of\<close>; the keys of a decoded JSON object are strings, each bound
  once.
\<close>

datatype json =
    JNull
  | JBool bool
  | JInt int
  | JFloat "64 word"
  | JStr string
  | JList "json list"
  | JObj "(string \<times> json) list"

text \<open>
  An exception is its class and the text that \<^verbatim>\<open>str(e)\<close> gives. The classes are the ones
  the source raises or catches by name, the ones the interpreter raises on the operations the
  source uses, and \<open>RequestException\<close> for the transport errors that
  \<^verbatim>\<open>fetch_catalog\<close> and \<^verbatim>\<open>fetch_thread\<close> do not list.
\<close>

datatype exn_kind =
    ValueError
  | KeyError
  | TypeError
  | AttributeError
  | OSError
  | HTTPError
  | ConnectionError
  | Timeout
  | JSONDecodeError
  | RequestException

type_synonym exn = "exn_kind \<times> string"

definition sq :: string where
  "sq = [CHR 0x27]"

definition nl :: char where
  "nl = CHR 0x0A"

subsection \<open>Raising computations without state\<close>

definition bind_r :: "exn + 'a \<Rightarrow> ('a \<Rightarrow> exn + 'b) \<Rightarrow> exn + 'b" where
  "bind_r m k = (case m of Inl e \<Rightarrow> Inl e | Inr x \<Rightarrow> k x)"

fun map_r :: "('a \<Rightarrow> exn + 'b) \<Rightarrow> 'a list \<Rightarrow> exn + 'b list" where
  "map_r g [] = Inr []"
| "map_r g (x # xs) = bind_r (g x) (\<lambda>y. bind_r (map_r g xs) (\<lambda>ys. Inr (y # ys)))"

fun filter_r :: "('a \<Rightarrow> exn + bool) \<Rightarrow> 'a list \<Rightarrow> exn + 'a list" where
  "filter_r p [] = Inr []"
| "filter_r p (x # xs) =
     bind_r (p x) (\<lambda>b. bind_r (filter_r p xs) (\<lambda>ys. Inr (if b then x # ys else ys)))"

subsection \<open>The operations of the interpreter that the source uses\<close>

fun starts_with :: "string \<Rightarrow> string \<Rightarrow> bool" where
  "starts_with [] s = True"
| "starts_with (c # p) [] = False"
| "starts_with (c # p) (d # s) = (c = d \<and> starts_with p s)"

fun is_substring :: "string \<Rightarrow> string \<Rightarrow> bool" where
  "is_substring p [] = (p = [])"
| "is_substring p (d # s) = (starts_with p (d # s) \<or> is_substring p s)"

text \<open>
  The name of the type of a value, as the interpreter prints it in the texts of its
  exceptions. The texts below are those of CPython 3.11.
\<close>

fun type_name :: "json \<Rightarrow> string" where
  "type_name JNull = ''NoneType''"
| "type_name (JBool b) = ''bool''"
| "type_name (JInt i) = ''int''"
| "type_name (JFloat x) = ''float''"
| "type_name (JStr s) = ''str''"
| "type_name (JList xs) = ''list''"
| "type_name (JObj kvs) = ''dict''"

text \<open>\<^verbatim>\<open>for x in v\<close>: the elements of a list, the keys of a dict, the characters of a string.\<close>

fun py_iter :: "json \<Rightarrow> exn + json list" where
  "py_iter (JList xs) = Inr xs"
| "py_iter (JObj kvs) = Inr (map (\<lambda>kv. JStr (fst kv)) kvs)"
| "py_iter (JStr s) = Inr (map (\<lambda>c. JStr [c]) s)"
| "py_iter v = Inl (TypeError, sq @ type_name v @ sq @ '' object is not iterable'')"

text \<open>\<^verbatim>\<open>key in v\<close> for a string key: a key of a dict, an element of a list, a substring of a string.\<close>

fun py_contains :: "string \<Rightarrow> json \<Rightarrow> exn + bool" where
  "py_contains key (JObj kvs) = Inr (map_of kvs key \<noteq> None)"
| "py_contains key (JList xs) = Inr (JStr key \<in> set xs)"
| "py_contains key (JStr s) = Inr (is_substring key s)"
| "py_contains key v =
     Inl (TypeError, ''argument of type '' @ sq @ type_name v @ sq @ '' is not iterable'')"

text \<open>\<^verbatim>\<open>v[key]\<close> for a string key: only a dict that has the key answers.\<close>

fun py_getitem :: "json \<Rightarrow> string \<Rightarrow> exn + json" where
  "py_getitem (JObj kvs) key =
     (case map_of kvs key of None \<Rightarrow> Inl (KeyError, sq @ key @ sq) | Some v \<Rightarrow> Inr v)"
| "py_getitem (JList xs) key =
     Inl (TypeError, ''list indices must be integers or slices, not str'')"
| "py_getitem (JStr s) key =
     Inl (TypeError, ''string indices must be integers, not '' @ sq @ ''str'' @ sq)"
| "py_getitem v key = Inl (TypeError, sq @ type_name v @ sq @ '' object is not subscriptable'')"

text \<open>\<^verbatim>\<open>v.get(key, default)\<close>: only a dict has the method.\<close>

fun py_get :: "json \<Rightarrow> string \<Rightarrow> json \<Rightarrow> exn + json" where
  "py_get (JObj kvs) key d = Inr (case map_of kvs key of None \<Rightarrow> d | Some v \<Rightarrow> v)"
| "py_get v key d =
     Inl (AttributeError,
          sq @ type_name v @ sq @ '' object has no attribute '' @ sq @ ''get'' @ sq)"

text \<open>
  \<^verbatim>\<open>xs[a:b]\<close> with Python's rule for the two bounds: a negative bound counts from the end,
  and both are clipped to the list.
\<close>

definition slice_bound :: "nat \<Rightarrow> int \<Rightarrow> nat" where
  "slice_bound n i = (if i < 0 then nat (max (i + int n) 0) else min (nat i) n)"

definition py_slice :: "'a list \<Rightarrow> int \<Rightarrow> int \<Rightarrow> 'a list" where
  "py_slice xs a b =
     (let start = slice_bound (length xs) a; stop = slice_bound (length xs) b
      in take (stop - start) (drop start xs))"

text \<open>\<^verbatim>\<open>os.path.join\<close> on a POSIX system, for two components.\<close>

definition path_join :: "string \<Rightarrow> string \<Rightarrow> string" where
  "path_join a b =
     (if starts_with ''/'' b then b
      else if a = [] \<or> last a = CHR ''/'' then a @ b
      else a @ ''/'' @ b)"

section \<open>fetcher/utils.py: the board allow-list\<close>

definition valid_boards :: "string list" where
  "valid_boards = [''po'', ''g'', ''b'', ''hr'', ''biz'', ''fit'', ''pol'', ''sci'', ''tech'', ''news'']"

definition validate_board_name :: "string \<Rightarrow> exn + unit" where
  "validate_board_name board =
     (if board \<notin> set valid_boards
      then Inl (ValueError, ''The board '' @ sq @ board @ sq @ '' is not a valid 4chan board.'')
      else Inr ())"

section \<open>fetcher/network.py: extraction of the two record shapes\<close>

definition BASE_URL :: string where
  "BASE_URL = ''https://a.4cdn.org''"

definition IMAGE_URL :: string where
  "IMAGE_URL = ''https://i.4cdn.org''"

text \<open>
  The list comprehension of \<^verbatim>\<open>save_thread_starter\<close>: the posts of the thread that pass
  \<^verbatim>\<open>'sub' in post\<close>. The comprehension runs over all posts before any record is built.
\<close>

definition thread_starter_posts :: "json \<Rightarrow> exn + json list" where
  "thread_starter_posts thread_data =
     bind_r (py_get thread_data ''posts'' (JList [])) (\<lambda>pv.
     bind_r (py_iter pv) (\<lambda>posts.
     filter_r (py_contains ''sub'') posts))"

text \<open>The dict built in the loop body: \<^verbatim>\<open>post['no']\<close> is indexed, every other field has a default.\<close>

definition starter_record :: "json \<Rightarrow> exn + json" where
  "starter_record post =
     bind_r (py_getitem post ''no'') (\<lambda>no.
     bind_r (py_get post ''now'' (JStr [])) (\<lambda>now.
     bind_r (py_get post ''name'' (JStr [])) (\<lambda>name.
     bind_r (py_get post ''sub'' (JStr [])) (\<lambda>sub.
     bind_r (py_get post ''time'' (JInt 0)) (\<lambda>time.
     bind_r (py_get post ''semantic_url'' (JStr [])) (\<lambda>semantic_url.
     bind_r (py_get post ''replies'' (JInt 0)) (\<lambda>replies.
     bind_r (py_get post ''images'' (JInt 0)) (\<lambda>images.
     Inr (JObj [(''no'', no), (''now'', now), (''name'', name), (''sub'', sub),
                (''time'', time), (''semantic_url'', semantic_url),
                (''replies'', replies), (''images'', images)])))))))))"

definition thread_starter_data :: "json \<Rightarrow> exn + json list" where
  "thread_starter_data thread_data =
     bind_r (thread_starter_posts thread_data) (map_r starter_record)"

text \<open>
  The dict of the comprehension of \<^verbatim>\<open>save_image_posts\<close>, its entries evaluated in the order
  they are written. \<open>fmt\<close> is the interpreter's \<^verbatim>\<open>str\<close>, which the f-string applies to
  \<^verbatim>\<open>post['tim']\<close> and \<^verbatim>\<open>post['ext']\<close>; the board is a string already.
\<close>

definition image_record :: "(json \<Rightarrow> string) \<Rightarrow> string \<Rightarrow> json \<Rightarrow> exn + json" where
  "image_record fmt board post =
     bind_r (py_getitem post ''no'') (\<lambda>no.
     bind_r (py_get post ''now'' (JStr [])) (\<lambda>now.
     bind_r (py_get post ''name'' (JStr [])) (\<lambda>name.
     bind_r (py_get post ''com'' (JStr [])) (\<lambda>com.
     bind_r (py_get post ''filename'' (JStr [])) (\<lambda>filename.
     bind_r (py_get post ''ext'' (JStr [])) (\<lambda>ext.
     bind_r (py_get post ''w'' (JInt 0)) (\<lambda>w.
     bind_r (py_get post ''h'' (JInt 0)) (\<lambda>h.
     bind_r (py_get post ''time'' (JInt 0)) (\<lambda>time.
     bind_r (py_get post ''md5'' (JStr [])) (\<lambda>md5.
     bind_r (py_get post ''fsize'' (JInt 0)) (\<lambda>fsize.
     bind_r (py_get post ''resto'' (JInt 0)) (\<lambda>resto.
     bind_r (py_getitem post ''tim'') (\<lambda>tim.
     bind_r (py_getitem post ''ext'') (\<lambda>ext'.
     Inr (JObj [(''no'', no), (''now'', now), (''name'', name), (''com'', com),
                (''filename'', filename), (''ext'', ext), (''w'', w), (''h'', h),
                (''time'', time), (''md5'', md5), (''fsize'', fsize), (''resto'', resto),
                (''url'', JStr (IMAGE_URL @ ''/'' @ board @ ''/'' @ fmt tim @ fmt ext'))])))))))))))))))"

text \<open>The condition \<^verbatim>\<open>'tim' in post and 'ext' in post\<close>; \<^verbatim>\<open>and\<close> skips its right side.\<close>

definition has_tim_ext :: "json \<Rightarrow> exn + bool" where
  "has_tim_ext post =
     bind_r (py_contains ''tim'' post) (\<lambda>a. if a then py_contains ''ext'' post else Inr False)"

text \<open>The comprehension tests a post and builds its record before it looks at the next post.\<close>

fun images_loop :: "(json \<Rightarrow> string) \<Rightarrow> string \<Rightarrow> json list \<Rightarrow> exn + json list" where
  "images_loop fmt board [] = Inr []"
| "images_loop fmt board (post # posts) =
     bind_r (has_tim_ext post) (\<lambda>b.
       if b then
         bind_r (image_record fmt board post) (\<lambda>r.
         bind_r (images_loop fmt board posts) (\<lambda>rs. Inr (r # rs)))
       else images_loop fmt board posts)"

definition images_info :: "(json \<Rightarrow> string) \<Rightarrow> string \<Rightarrow> json \<Rightarrow> exn + json list" where
  "images_info fmt board thread_data =
     bind_r (py_get thread_data ''posts'' (JList [])) (\<lambda>pv.
     bind_r (py_iter pv) (\<lambda>posts.
     images_loop fmt board posts))"

section \<open>The world the program runs in\<close>

text \<open>
  What the program can change or observe: the files and directories of the disk, the requests
  sent so far, the log, the lines printed, and the seconds slept. \<open>io_ops\<close> counts the
  calls made on the file layer (\<^verbatim>\<open>makedirs\<close>, \<^verbatim>\<open>open\<close>, \<^verbatim>\<open>write\<close>, \<^verbatim>\<open>close\<close>),
  \<open>io_errors\<close> those of them that failed, \<open>opened\<close> the calls of \<^verbatim>\<open>open\<close> that
  returned a handle, and \<open>handles\<close> the handles not yet closed. A handle is buffered:
  \<open>pending\<close> is what the open handle has taken from \<^verbatim>\<open>write\<close> and not yet passed to the
  operating system. The program never holds two handles at a time.
\<close>

datatype level = INFO | ERROR

record world =
  files :: "string \<Rightarrow> string option"
  dirs :: "string list"
  requests :: "string list"
  io_ops :: nat
  io_errors :: nat
  opened :: nat
  handles :: nat
  pending :: string
  logged :: "(level \<times> string) list"
  printed :: "string list"
  slept :: nat

text \<open>
  What the program does not decide: \<open>py_str\<close> is the interpreter's \<^verbatim>\<open>str\<close> on decoded JSON
  and \<open>json_dumps\<close> is \<^verbatim>\<open>json.dumps\<close>; \<open>http_get k url\<close> is what the \<open>k\<close>-th request of
  the session gives when it asks for \<open>url\<close> (\<^verbatim>\<open>session.get\<close>, \<^verbatim>\<open>raise_for_status\<close> and
  \<^verbatim>\<open>response.json\<close> together: the decoded body or the exception); \<open>io_fault k\<close> is the
  error text of the \<open>k\<close>-th call on the file layer when the operating system fails it, and
  \<open>io_accepts k\<close> is how many characters the operating system has taken by then;
  \<open>flush_now k\<close> is how many of its pending characters the handle passes to the operating
  system during the \<open>k\<close>-th call when that call is a \<^verbatim>\<open>write\<close> (the buffering policy of
  the \<^verbatim>\<open>io\<close> library: none while the buffer has room).
\<close>

record env =
  py_str :: "json \<Rightarrow> string"
  json_dumps :: "json \<Rightarrow> string"
  http_get :: "nat \<Rightarrow> string \<Rightarrow> exn + json"
  io_fault :: "nat \<Rightarrow> string option"
  io_accepts :: "nat \<Rightarrow> nat"
  flush_now :: "nat \<Rightarrow> nat"

text \<open>A statement either returns a value or raises; the world it leaves is kept in both cases.\<close>

type_synonym 'a io = "world \<Rightarrow> (exn + 'a) \<times> world"

definition return_io :: "'a \<Rightarrow> 'a io" where
  "return_io x w = (Inr x, w)"

definition raise_io :: "exn \<Rightarrow> 'a io" where
  "raise_io e w = (Inl e, w)"

definition lift_r :: "exn + 'a \<Rightarrow> 'a io" where
  "lift_r r w = (r, w)"

definition bind_io :: "'a io \<Rightarrow> ('a \<Rightarrow> 'b io) \<Rightarrow> 'b io" where
  "bind_io m k w = (case m w of (Inl e, w') \<Rightarrow> (Inl e, w') | (Inr x, w') \<Rightarrow> k x w')"

text \<open>\<^verbatim>\<open>try: m except Exception as e: h e\<close>\<close>

definition try_io :: "'a io \<Rightarrow> (exn \<Rightarrow> 'a io) \<Rightarrow> 'a io" where
  "try_io m h w = (case m w of (Inl e, w') \<Rightarrow> h e w' | (Inr x, w') \<Rightarrow> (Inr x, w'))"

text \<open>
  A call of \<^verbatim>\<open>logger.info\<close> or \<^verbatim>\<open>logger.error\<close>. The constructor of the fetcher takes
  \<^verbatim>\<open>logger=None\<close> by default, and a method call on \<^verbatim>\<open>None\<close> raises \<open>AttributeError\<close>.
\<close>

definition logger_call :: "bool \<Rightarrow> level \<Rightarrow> string \<Rightarrow> unit io" where
  "logger_call has_logger lv msg w =
     (if has_logger then (Inr (), w\<lparr>logged := logged w @ [(lv, msg)]\<rparr>)
      else (Inl (AttributeError,
                 sq @ ''NoneType'' @ sq @ '' object has no attribute '' @ sq
                 @ (case lv of INFO \<Rightarrow> ''info'' | ERROR \<Rightarrow> ''error'') @ sq), w))"

section \<open>fetcher/utils.py: the record writer and the output layout\<close>

definition content :: "world \<Rightarrow> string \<Rightarrow> string" where
  "content w filename = (case files w filename of None \<Rightarrow> [] | Some c \<Rightarrow> c)"

text \<open>
  \<^verbatim>\<open>open(filename, mode)\<close>: mode \<^verbatim>\<open>'a'\<close> creates an absent file and keeps an existing one,
  mode \<^verbatim>\<open>'w'\<close> creates or truncates.
\<close>

definition open_file :: "env \<Rightarrow> string \<Rightarrow> bool \<Rightarrow> unit io" where
  "open_file E filename append_mode w =
     (case io_fault E (io_ops w) of
        Some msg \<Rightarrow>
          (Inl (OSError, msg), w\<lparr>io_ops := Suc (io_ops w), io_errors := Suc (io_errors w)\<rparr>)
      | None \<Rightarrow>
          (Inr (), w\<lparr>io_ops := Suc (io_ops w),
                     files := (files w)(filename \<mapsto> (if append_mode then content w filename else [])),
                     opened := Suc (opened w),
                     handles := Suc (handles w),
                     pending := []\<rparr>))"

text \<open>
  The handle passes its first \<open>m\<close> pending characters to the operating system. When the
  operating system fails the call, the characters it had taken by then are in the file, the
  others stay pending, and the call raises.
\<close>

definition os_write :: "env \<Rightarrow> string \<Rightarrow> nat \<Rightarrow> unit io" where
  "os_write E filename m w =
     (case io_fault E (io_ops w) of
        None \<Rightarrow>
          (Inr (), w\<lparr>io_ops := Suc (io_ops w),
                     files := (files w)(filename \<mapsto> content w filename @ take m (pending w)),
                     pending := drop m (pending w)\<rparr>)
      | Some msg \<Rightarrow>
          (Inl (OSError, msg),
           w\<lparr>io_ops := Suc (io_ops w), io_errors := Suc (io_errors w),
              files := (files w)(filename \<mapsto>
                         content w filename @ take (min (io_accepts E (io_ops w)) m) (pending w)),
              pending := drop (min (io_accepts E (io_ops w)) m) (pending w)\<rparr>))"

text \<open>
  \<^verbatim>\<open>file.write(s)\<close>: the text joins the pending characters; the operating system is called
  only when the handle decides to pass some of them on.
\<close>

definition write_file :: "env \<Rightarrow> string \<Rightarrow> string \<Rightarrow> unit io" where
  "write_file E filename s w =
     (if flush_now E (io_ops w) = 0
      then (Inr (), w\<lparr>io_ops := Suc (io_ops w), pending := pending w @ s\<rparr>)
      else os_write E filename (flush_now E (io_ops w)) (w\<lparr>pending := pending w @ s\<rparr>))"

text \<open>
  \<^verbatim>\<open>file.close()\<close>: what is pending is passed to the operating system, and the handle is
  released whether that fails or not; a failure is raised after the release. With nothing
  pending the operating system is handed no data that it could refuse, and the close returns.
\<close>

definition close_file :: "env \<Rightarrow> string \<Rightarrow> unit io" where
  "close_file E filename w =
     (if pending w = []
      then (Inr (), w\<lparr>io_ops := Suc (io_ops w), handles := handles w - 1\<rparr>)
      else (case os_write E filename (length (pending w)) w of
              (r, w') \<Rightarrow> (r, w'\<lparr>handles := handles w' - 1, pending := []\<rparr>)))"

text \<open>
  The \<^verbatim>\<open>with\<close> statement: the handle is closed when the body returns and when it raises,
  and an exception of \<^verbatim>\<open>close\<close> is the one that leaves the statement.
\<close>

definition with_open :: "env \<Rightarrow> string \<Rightarrow> bool \<Rightarrow> 'a io \<Rightarrow> 'a io" where
  "with_open E filename append_mode body =
     bind_io (open_file E filename append_mode) (\<lambda>_ w.
       case body w of (r, w') \<Rightarrow>
         (case close_file E filename w' of
            (Inl e, w'') \<Rightarrow> (Inl e, w'')
          | (Inr _, w'') \<Rightarrow> (r, w'')))"

fun write_entries :: "env \<Rightarrow> string \<Rightarrow> json list \<Rightarrow> unit io" where
  "write_entries E filename [] = return_io ()"
| "write_entries E filename (entry # data) =
     bind_io (write_file E filename (json_dumps E entry @ [nl])) (\<lambda>_.
     write_entries E filename data)"

definition save_to_json :: "env \<Rightarrow> json list \<Rightarrow> string \<Rightarrow> bool \<Rightarrow> bool \<Rightarrow> unit io" where
  "save_to_json E data filename append_mode has_logger =
     bind_io (if has_logger then logger_call True INFO (''Saving data to '' @ filename)
              else return_io ()) (\<lambda>_.
     try_io (with_open E filename append_mode (write_entries E filename data))
       (\<lambda>e. bind_io (if has_logger
                      then logger_call True ERROR
                             (''Error saving data to '' @ filename @ '': '' @ snd e)
                      else return_io ()) (\<lambda>_.
             raise_io e)))"

definition create_directories :: "env \<Rightarrow> string \<Rightarrow> string \<Rightarrow> string io" where
  "create_directories E b output_dir w =
     (let base = path_join output_dir b; images_path = path_join base ''images''
      in case io_fault E (io_ops w) of
           Some msg \<Rightarrow>
             (Inl (OSError, msg), w\<lparr>io_ops := Suc (io_ops w), io_errors := Suc (io_errors w)\<rparr>)
         | None \<Rightarrow> (Inr base, w\<lparr>io_ops := Suc (io_ops w),
                                  dirs := List.insert images_path (dirs w)\<rparr>))"

section \<open>fetcher/network.py: the fetcher\<close>

text \<open>
  The fields of a \<^verbatim>\<open>FourChanFetcher\<close> that its methods read. \<open>self_logger\<close> says whether a
  logger was given. The session and the headers are the same in every instance.
\<close>

record fetcher =
  self_board :: string
  self_output_dir :: string
  self_logger :: bool
  self_base_path :: string

definition init :: "env \<Rightarrow> string \<Rightarrow> string \<Rightarrow> bool \<Rightarrow> fetcher io" where
  "init E b output_dir has_logger =
     bind_io (lift_r (validate_board_name b)) (\<lambda>_.
     bind_io (create_directories E b output_dir) (\<lambda>base.
     return_io \<lparr>self_board = b, self_output_dir = output_dir,
                self_logger = has_logger, self_base_path = base\<rparr>))"

definition session_get :: "env \<Rightarrow> string \<Rightarrow> json io" where
  "session_get E url w = (http_get E (length (requests w)) url, w\<lparr>requests := requests w @ [url]\<rparr>)"

definition catalog_url :: "fetcher \<Rightarrow> string" where
  "catalog_url f = BASE_URL @ ''/'' @ self_board f @ ''/catalog.json''"

definition fetch_catalog :: "env \<Rightarrow> fetcher \<Rightarrow> json io" where
  "fetch_catalog E f =
     try_io (session_get E (catalog_url f))
       (\<lambda>e. if fst e = HTTPError \<or> fst e = ConnectionError \<or> fst e = Timeout then
               bind_io (logger_call (self_logger f) ERROR (''Error fetching catalog: '' @ snd e))
                 (\<lambda>_. raise_io e)
             else if fst e = JSONDecodeError then
               bind_io (logger_call (self_logger f) ERROR
                          (''Error decoding catalog JSON: '' @ snd e))
                 (\<lambda>_. raise_io e)
             else raise_io e)"

definition thread_url :: "env \<Rightarrow> fetcher \<Rightarrow> json \<Rightarrow> string" where
  "thread_url E f thread_no =
     BASE_URL @ ''/'' @ self_board f @ ''/thread/'' @ py_str E thread_no @ ''.json''"

definition fetch_thread :: "env \<Rightarrow> fetcher \<Rightarrow> json \<Rightarrow> json io" where
  "fetch_thread E f thread_no =
     try_io (session_get E (thread_url E f thread_no))
       (\<lambda>e. if fst e = HTTPError \<or> fst e = ConnectionError \<or> fst e = Timeout then
               bind_io (logger_call (self_logger f) ERROR
                          (''Error fetching thread '' @ py_str E thread_no @ '': '' @ snd e))
                 (\<lambda>_. raise_io e)
             else if fst e = JSONDecodeError then
               bind_io (logger_call (self_logger f) ERROR
                          (''Error decoding thread JSON: '' @ snd e))
                 (\<lambda>_. raise_io e)
             else raise_io e)"

definition thread_list_path :: "fetcher \<Rightarrow> string" where
  "thread_list_path f = path_join (self_base_path f) ''thread_list.json''"

definition save_thread_starter :: "env \<Rightarrow> fetcher \<Rightarrow> json \<Rightarrow> unit io" where
  "save_thread_starter E f thread_data =
     bind_io (lift_r (thread_starter_data thread_data)) (\<lambda>thread_starter_data.
     save_to_json E thread_starter_data (thread_list_path f) True (self_logger f))"

definition image_path :: "env \<Rightarrow> fetcher \<Rightarrow> json \<Rightarrow> string" where
  "image_path E f thread_no =
     path_join (path_join (self_base_path f) ''images'')
       (self_board f @ ''-'' @ py_str E thread_no @ ''_ImageURLs.json'')"

definition save_image_posts :: "env \<Rightarrow> fetcher \<Rightarrow> json \<Rightarrow> json \<Rightarrow> unit io" where
  "save_image_posts E f thread_data thread_no =
     bind_io (lift_r (images_info (py_str E) (self_board f) thread_data)) (\<lambda>images_info.
     save_to_json E images_info (image_path E f thread_no) False (self_logger f))"

text \<open>The body of the \<^verbatim>\<open>try\<close> of \<^verbatim>\<open>fetch_and_save_thread\<close>.\<close>

definition process_thread :: "env \<Rightarrow> fetcher \<Rightarrow> json \<Rightarrow> unit io" where
  "process_thread E f thread_no =
     bind_io (fetch_thread E f thread_no) (\<lambda>thread_data.
     bind_io (logger_call (self_logger f) INFO
                (''Fetched thread number '' @ py_str E thread_no)) (\<lambda>_.
     bind_io (save_thread_starter E f thread_data) (\<lambda>_.
     bind_io (logger_call (self_logger f) INFO
                (''Saved thread starter for thread '' @ py_str E thread_no)) (\<lambda>_.
     bind_io (save_image_posts E f thread_data thread_no) (\<lambda>_.
     logger_call (self_logger f) INFO
       (''Saved image posts for thread '' @ py_str E thread_no))))))"

definition fetch_and_save_thread :: "env \<Rightarrow> fetcher \<Rightarrow> json \<Rightarrow> unit io" where
  "fetch_and_save_thread E f thread_no =
     try_io (process_thread E f thread_no)
       (\<lambda>e. logger_call (self_logger f) ERROR
               (''Failed to process thread '' @ py_str E thread_no @ '': '' @ snd e))"

text \<open>The loop that extends \<^verbatim>\<open>all_threads\<close> page by page.\<close>

fun extend_pages :: "json list \<Rightarrow> json list \<Rightarrow> exn + json list" where
  "extend_pages all_threads [] = Inr all_threads"
| "extend_pages all_threads (page # pages) =
     bind_r (py_get page ''threads'' (JList [])) (\<lambda>tv.
     bind_r (py_iter tv) (\<lambda>ts.
     extend_pages (all_threads @ ts) pages))"

definition flatten_catalog :: "json \<Rightarrow> exn + json list" where
  "flatten_catalog catalog = bind_r (py_iter catalog) (extend_pages [])"

definition select_threads :: "json \<Rightarrow> int \<Rightarrow> int \<Rightarrow> exn + json list" where
  "select_threads catalog threads offset =
     bind_r (flatten_catalog catalog) (\<lambda>all_threads.
     map_r (\<lambda>thread. py_getitem thread ''no'') (py_slice all_threads offset (offset + threads)))"

text \<open>
  The executor. The tasks are run one after the other in the order they are submitted, each
  to its end, and the loop over \<^verbatim>\<open>as_completed\<close> then reads the futures in that order;
  the interleaving of the five workers is not modelled. A future keeps the thread number and
  what the task returned or raised.
\<close>

fun run_tasks :: "env \<Rightarrow> fetcher \<Rightarrow> json list \<Rightarrow> world \<Rightarrow> (json \<times> (exn + unit)) list \<times> world" where
  "run_tasks E f [] w = ([], w)"
| "run_tasks E f (thread_no # rest) w =
     (case fetch_and_save_thread E f thread_no w of (r, w') \<Rightarrow>
        (case run_tasks E f rest w' of (futures, w'') \<Rightarrow> ((thread_no, r) # futures, w'')))"

definition sleep :: "nat \<Rightarrow> unit io" where
  "sleep n w = (Inr (), w\<lparr>slept := slept w + n\<rparr>)"

fun observe :: "env \<Rightarrow> fetcher \<Rightarrow> (json \<times> (exn + unit)) list \<Rightarrow> unit io" where
  "observe E f [] = return_io ()"
| "observe E f ((thread_no, r) # futures) =
     bind_io (case r of
                Inr _ \<Rightarrow> sleep 1
              | Inl e \<Rightarrow> logger_call (self_logger f) ERROR
                          (''Thread '' @ py_str E thread_no @ '' generated an exception: '' @ snd e))
       (\<lambda>_. observe E f futures)"

definition run_pool :: "env \<Rightarrow> fetcher \<Rightarrow> json list \<Rightarrow> unit io" where
  "run_pool E f selected_threads w =
     (case run_tasks E f selected_threads w of (futures, w') \<Rightarrow> observe E f futures w')"

text \<open>The body of the \<^verbatim>\<open>try\<close> of \<^verbatim>\<open>fetch_top_threads\<close> up to the executor.\<close>

definition select_phase :: "env \<Rightarrow> fetcher \<Rightarrow> int \<Rightarrow> int \<Rightarrow> json list io" where
  "select_phase E f threads offset =
     bind_io (fetch_catalog E f) (\<lambda>catalog.
     bind_io (lift_r (select_threads catalog threads offset)) (\<lambda>selected_threads.
     bind_io (logger_call (self_logger f) INFO
                (''Selected threads: '' @ py_str E (JList selected_threads))) (\<lambda>_.
     return_io selected_threads)))"

definition fetch_top_threads :: "env \<Rightarrow> fetcher \<Rightarrow> int \<Rightarrow> int \<Rightarrow> unit io" where
  "fetch_top_threads E f threads offset =
     try_io (bind_io (select_phase E f threads offset) (run_pool E f))
       (\<lambda>e. bind_io (logger_call (self_logger f) ERROR
                        (''An error occurred while fetching top threads: '' @ snd e)) (\<lambda>_.
             raise_io e))"

section \<open>fetch_threads.py: the command line\<close>

text \<open>
  \<^verbatim>\<open>main\<close> after the arguments are parsed; the result is the exit status (\<^verbatim>\<open>sys.exit(1)\<close>
  or a normal return). \<^verbatim>\<open>JSONDecodeError\<close> is a subclass of \<^verbatim>\<open>ValueError\<close>.
\<close>

definition main :: "env \<Rightarrow> string \<Rightarrow> int \<Rightarrow> int \<Rightarrow> string \<Rightarrow> world \<Rightarrow> nat \<times> world" where
  "main E b threads offset directory w =
     (case bind_io (logger_call True INFO (''Starting fetching process for board: '' @ b)) (\<lambda>_.
           bind_io (init E b directory True) (\<lambda>f.
           bind_io (fetch_top_threads E f threads offset) (\<lambda>_.
           logger_call True INFO ''Fetching process completed successfully.''))) w of
        (Inr _, w') \<Rightarrow> (0, w')
      | (Inl e, w') \<Rightarrow>
          (if fst e = ValueError \<or> fst e = JSONDecodeError then
             (1, w'\<lparr>logged := logged w' @ [(ERROR, ''Validation error: '' @ snd e)],
                    printed := printed w' @
                      [''Error: '' @ snd e @ ''. Please check the board name and try again.'']\<rparr>)
           else
             (1, w'\<lparr>logged := logged w' @ [(ERROR, ''An error occurred: '' @ snd e)],
                    printed := printed w' @
                      [''An unexpected error occurred: '' @ snd e @
                       ''. Please check the logs for more details.'']\<rparr>)))"

section \<open>Vocabulary of the statements\<close>

text \<open>
  Total readings of a decoded object, used to state what the fallible operations above return
  when they return: whether a value is a dict, whether it is a dict with a key, and the value
  of a key or a default.
\<close>

fun is_dict :: "json \<Rightarrow> bool" where
  "is_dict (JObj kvs) = True"
| "is_dict _ = False"

fun has_key :: "string \<Rightarrow> json \<Rightarrow> bool" where
  "has_key key (JObj kvs) = (map_of kvs key \<noteq> None)"
| "has_key key _ = False"

fun field_or :: "json \<Rightarrow> string \<Rightarrow> json \<Rightarrow> json" where
  "field_or (JObj kvs) key d = (case map_of kvs key of None \<Rightarrow> d | Some v \<Rightarrow> v)"
| "field_or _ key d = d"

definition starter_of :: "json \<Rightarrow> json" where
  "starter_of p =
     JObj [(''no'', field_or p ''no'' JNull), (''now'', field_or p ''now'' (JStr [])),
           (''name'', field_or p ''name'' (JStr [])), (''sub'', field_or p ''sub'' (JStr [])),
           (''time'', field_or p ''time'' (JInt 0)),
           (''semantic_url'', field_or p ''semantic_url'' (JStr [])),
           (''replies'', field_or p ''replies'' (JInt 0)),
           (''images'', field_or p ''images'' (JInt 0))]"

definition image_of :: "(json \<Rightarrow> string) \<Rightarrow> string \<Rightarrow> json \<Rightarrow> json" where
  "image_of fmt b p =
     JObj [(''no'', field_or p ''no'' JNull), (''now'', field_or p ''now'' (JStr [])),
           (''name'', field_or p ''name'' (JStr [])), (''com'', field_or p ''com'' (JStr [])),
           (''filename'', field_or p ''filename'' (JStr [])),
           (''ext'', field_or p ''ext'' (JStr [])),
           (''w'', field_or p ''w'' (JInt 0)), (''h'', field_or p ''h'' (JInt 0)),
           (''time'', field_or p ''time'' (JInt 0)), (''md5'', field_or p ''md5'' (JStr [])),
           (''fsize'', field_or p ''fsize'' (JInt 0)), (''resto'', field_or p ''resto'' (JInt 0)),
           (''url'', JStr (IMAGE_URL @ ''/'' @ b @ ''/'' @ fmt (field_or p ''tim'' JNull)
                           @ fmt (field_or p ''ext'' JNull)))]"

text \<open>
  \<open>untouched filename w w'\<close>: between the two worlds nothing was requested, created, printed
  or slept, and no file but \<open>filename\<close> has changed.
\<close>

definition untouched :: "string \<Rightarrow> world \<Rightarrow> world \<Rightarrow> bool" where
  "untouched filename w w' \<longleftrightarrow>
     requests w' = requests w \<and> dirs w' = dirs w \<and> printed w' = printed w
     \<and> slept w' = slept w \<and> (\<forall>p. p \<noteq> filename \<longrightarrow> files w' p = files w p)"

text \<open>
  \<open>only_outputs lst ips w w'\<close>: between the two worlds the file \<open>lst\<close> has only grown
  at its end, and no other file has changed but those of \<open>ips\<close>.
\<close>

definition only_outputs :: "string \<Rightarrow> string set \<Rightarrow> world \<Rightarrow> world \<Rightarrow> bool" where
  "only_outputs lst ips w w' \<longleftrightarrow>
     (\<forall>p. p \<noteq> lst \<longrightarrow> p \<notin> ips \<longrightarrow> files w' p = files w p)
     \<and> (\<exists>s. content w' lst = content w lst @ s)"

text \<open>What the writer appends for a sequence of records, and the lines of a file.\<close>

definition json_lines :: "env \<Rightarrow> json list \<Rightarrow> string" where
  "json_lines E data = concat (map (\<lambda>entry. json_dumps E entry @ [nl]) data)"

fun lines_of :: "string \<Rightarrow> string list" where
  "lines_of [] = []"
| "lines_of (c # s) =
     (if c = nl then [] # lines_of s
      else (case lines_of s of [] \<Rightarrow> [[c]] | l # ls \<Rightarrow> (c # l) # ls))"

subsection \<open>A concrete environment for the evaluated instances\<close>

text \<open>
  \<open>sample_str\<close> is \<^verbatim>\<open>str\<close> on integers, strings and lists of integers, \<open>sample_dumps\<close>
  is \<^verbatim>\<open>json.dumps\<close> on integers, on strings without characters that need escaping, and on
  dicts of these.
\<close>

definition digit :: "nat \<Rightarrow> char" where
  "digit n = ''0123456789'' ! n"

fun dec :: "nat \<Rightarrow> string" where
  "dec n = (if n < 10 then [digit n] else dec (n div 10) @ [digit (n mod 10)])"

declare dec.simps [simp del]

fun sample_int :: "json \<Rightarrow> string" where
  "sample_int (JInt i) = (if i < 0 then ''-'' else []) @ dec (nat \<bar>i\<bar>)"
| "sample_int _ = ''?''"

fun commas :: "string list \<Rightarrow> string" where
  "commas [] = []"
| "commas [x] = x"
| "commas (x # y # ys) = x @ '', '' @ commas (y # ys)"

fun sample_str :: "json \<Rightarrow> string" where
  "sample_str (JInt i) = sample_int (JInt i)"
| "sample_str (JStr s) = s"
| "sample_str (JList xs) = ''['' @ commas (map sample_int xs) @ '']''"
| "sample_str _ = ''?''"

definition dq :: string where
  "dq = [CHR 0x22]"

fun sample_scalar :: "json \<Rightarrow> string" where
  "sample_scalar (JInt i) = sample_str (JInt i)"
| "sample_scalar (JStr s) = dq @ filter (\<lambda>c. c \<noteq> nl) s @ dq"
| "sample_scalar _ = ''null''"

fun sample_members :: "(string \<times> json) list \<Rightarrow> string" where
  "sample_members [] = []"
| "sample_members [(k, v)] = dq @ filter (\<lambda>c. c \<noteq> nl) k @ dq @ '': '' @ sample_scalar v"
| "sample_members ((k, v) # kvs) =
     dq @ filter (\<lambda>c. c \<noteq> nl) k @ dq @ '': '' @ sample_scalar v @ '', '' @ sample_members kvs"

fun sample_dumps :: "json \<Rightarrow> string" where
  "sample_dumps (JObj kvs) = ''{'' @ sample_members kvs @ ''}''"
| "sample_dumps v = sample_scalar v"

definition sample_thread :: json where
  "sample_thread = JObj [(''posts'', JList
     [JObj [(''no'', JInt 111), (''sub'', JStr ''first''), (''tim'', JInt 1700),
            (''ext'', JStr ''.jpg'')],
      JObj [(''no'', JInt 112), (''name'', JStr ''anon'')]])]"

definition sample_catalog :: json where
  "sample_catalog = JList
     [JObj [(''page'', JInt 1), (''threads'', JList [JObj [(''no'', JInt 111)],
                                                       JObj [(''no'', JInt 222)]])],
      JObj [(''page'', JInt 2), (''threads'', JList [JObj [(''no'', JInt 333)]])]]"

definition empty_world :: world where
  "empty_world = \<lparr>files = (\<lambda>_. None), dirs = [], requests = [], io_ops = 0, io_errors = 0,
                   opened = 0, handles = 0, pending = [], logged = [], printed = [],
                   slept = 0\<rparr>"

definition fetched_catalog :: world where
  "fetched_catalog = empty_world\<lparr>requests := [''https://a.4cdn.org/g/catalog.json'']\<rparr>"

definition sample_fetcher :: fetcher where
  "sample_fetcher = \<lparr>self_board = ''g'', self_output_dir = ''out'', self_logger = True,
                      self_base_path = ''out/g''\<rparr>"

definition sample_thread2 :: json where
  "sample_thread2 = JObj [(''posts'', JList
     [JObj [(''no'', JInt 111), (''sub'', JStr ''first''), (''tim'', JInt 1700),
            (''ext'', JStr ''.jpg'')],
      JObj [(''no'', JInt 113), (''tim'', JInt 1800), (''ext'', JStr ''.png'')]])]"

definition sample_thread3 :: json where
  "sample_thread3 = JObj [(''posts'', JList
     [JObj [(''no'', JInt 333), (''sub'', JStr ''text only'')]])]"

text \<open>
  The remote service of the instances: the catalog at the catalog address; thread 111 as
  \<open>sample_thread\<close> up to the second request of the session and as \<open>sample_thread2\<close>
  later; a refused connection for thread 222; \<open>sample_thread3\<close>, which has no image, for
  thread 333; status 404 for anything else.
\<close>

definition sample_get :: "nat \<Rightarrow> string \<Rightarrow> exn + json" where
  "sample_get k url =
     (if url = ''https://a.4cdn.org/g/catalog.json'' then Inr sample_catalog
      else if url = ''https://a.4cdn.org/g/thread/111.json''
        then (if k \<le> 1 then Inr sample_thread else Inr sample_thread2)
      else if url = ''https://a.4cdn.org/g/thread/222.json''
        then Inl (ConnectionError, ''connection refused'')
      else if url = ''https://a.4cdn.org/g/thread/333.json'' then Inr sample_thread3
      else Inl (HTTPError, ''404 Client Error''))"

text \<open>A disk that never fails, behind a handle that keeps everything until it is closed.\<close>

definition sample_env :: env where
  "sample_env = \<lparr>py_str = sample_str, json_dumps = sample_dumps, http_get = sample_get,
                  io_fault = (\<lambda>k. None), io_accepts = (\<lambda>k. 0), flush_now = (\<lambda>k. 0)\<rparr>"


section \<open>Properties of the extraction\<close>

lemma bind_r_simps [simp]:
  "bind_r (Inl e) k = Inl e"
  "bind_r (Inr x) k = k x"
  by (simp_all add: bind_r_def)

lemma py_contains_dict: "is_dict p \<Longrightarrow> py_contains key p = Inr (has_key key p)"
  by (cases p) simp_all

lemma py_get_dict: "is_dict p \<Longrightarrow> py_get p key d = Inr (field_or p key d)"
  by (cases p) simp_all

lemma py_getitem_dict:
  "is_dict p \<Longrightarrow> has_key key p \<Longrightarrow> py_getitem p key = Inr (field_or p key d)"
  by (cases p) auto

lemma filter_r_dicts:
  "\<forall>p\<in>set posts. is_dict p \<Longrightarrow>
   filter_r (py_contains key) posts = Inr (filter (has_key key) posts)"
  by (induction posts) (simp_all add: py_contains_dict)

lemma map_r_total:
  "\<forall>x\<in>set xs. g x = Inr (h x) \<Longrightarrow> map_r g xs = Inr (map h xs)"
  by (induction xs) simp_all

lemma length_filter_eq_iff:
  "length (filter P xs) = length xs \<longleftrightarrow> (\<forall>x\<in>set xs. P x)"
proof (induction xs)
  case Nil
  show ?case by simp
next
  case (Cons x xs)
  then show ?case
    using length_filter_le [of P xs] by (auto simp del: length_filter_le)
qed

lemma starter_record_dict:
  "is_dict p \<Longrightarrow> has_key ''no'' p \<Longrightarrow> starter_record p = Inr (starter_of p)"
  by (simp add: starter_record_def starter_of_def py_get_dict py_getitem_dict [where d = JNull])

lemma image_record_dict:
  "is_dict p \<Longrightarrow> has_key ''no'' p \<Longrightarrow> has_key ''tim'' p \<Longrightarrow> has_key ''ext'' p \<Longrightarrow>
   image_record fmt b p = Inr (image_of fmt b p)"
  by (simp add: image_record_def image_of_def py_get_dict py_getitem_dict [where d = JNull])

lemma has_tim_ext_dict:
  "is_dict p \<Longrightarrow> has_tim_ext p = Inr (has_key ''tim'' p \<and> has_key ''ext'' p)"
  by (simp add: has_tim_ext_def py_contains_dict)

lemma images_loop_dicts:
  "\<forall>p\<in>set posts. is_dict p \<and> (has_key ''tim'' p \<and> has_key ''ext'' p \<longrightarrow> has_key ''no'' p) \<Longrightarrow>
   images_loop fmt b posts =
     Inr (map (image_of fmt b) (filter (\<lambda>p. has_key ''tim'' p \<and> has_key ''ext'' p) posts))"
  by (induction posts) (auto simp add: has_tim_ext_dict image_record_dict)

text \<open>
  C3, as the code has it. \<^verbatim>\<open>post['no']\<close> is indexed, not read with a default, so a post that
  passes the test of an extraction and has no \<^verbatim>\<open>no\<close> field makes that extraction raise
  \<open>KeyError\<close>. For a thread that is a dict whose \<^verbatim>\<open>posts\<close> are dicts, each carrying
  \<^verbatim>\<open>no\<close> when it carries \<^verbatim>\<open>sub\<close> or both \<^verbatim>\<open>tim\<close> and \<^verbatim>\<open>ext\<close>, neither extraction
  raises: the thread starters are the records of the posts with \<^verbatim>\<open>sub\<close>, the image posts
  the records of the posts with \<^verbatim>\<open>tim\<close> and \<^verbatim>\<open>ext\<close>, every other missing field is the empty
  string or zero, and the number of thread starters is at most the number of posts, with
  equality exactly when every post has \<^verbatim>\<open>sub\<close>.
\<close>

theorem extraction_total:
  assumes posts: "py_get thread_data ''posts'' (JList []) = Inr (JList posts)"
    and dicts: "\<forall>p\<in>set posts. is_dict p"
    and no: "\<forall>p\<in>set posts. has_key ''sub'' p \<or> (has_key ''tim'' p \<and> has_key ''ext'' p)
               \<longrightarrow> has_key ''no'' p"
  shows "thread_starter_data thread_data
           = Inr (map starter_of (filter (has_key ''sub'') posts))
       \<and> images_info fmt b thread_data
           = Inr (map (image_of fmt b)
                    (filter (\<lambda>p. has_key ''tim'' p \<and> has_key ''ext'' p) posts))
       \<and> length (filter (has_key ''sub'') posts) \<le> length posts
       \<and> (length (filter (has_key ''sub'') posts) = length posts
            \<longleftrightarrow> (\<forall>p\<in>set posts. has_key ''sub'' p))"
proof -
  have sel: "thread_starter_posts thread_data = Inr (filter (has_key ''sub'') posts)"
    using posts dicts by (simp add: thread_starter_posts_def filter_r_dicts)
  have "\<forall>p\<in>set (filter (has_key ''sub'') posts). starter_record p = Inr (starter_of p)"
    using dicts no by (simp add: starter_record_dict)
  then have st: "thread_starter_data thread_data
                   = Inr (map starter_of (filter (has_key ''sub'') posts))"
    using sel by (simp add: thread_starter_data_def map_r_total)
  have im: "images_info fmt b thread_data
              = Inr (map (image_of fmt b)
                       (filter (\<lambda>p. has_key ''tim'' p \<and> has_key ''ext'' p) posts))"
    using posts dicts no by (simp add: images_info_def images_loop_dicts)
  show ?thesis
    using st im by (simp add: length_filter_eq_iff)
qed

theorem extraction_total_witness:
  "py_get sample_thread ''posts'' (JList [])
     = Inr (JList [JObj [(''no'', JInt 111), (''sub'', JStr ''first''), (''tim'', JInt 1700),
                         (''ext'', JStr ''.jpg'')],
                   JObj [(''no'', JInt 112), (''name'', JStr ''anon'')]])
   \<and> thread_starter_data sample_thread
     = Inr [JObj [(''no'', JInt 111), (''now'', JStr []), (''name'', JStr []),
                  (''sub'', JStr ''first''), (''time'', JInt 0), (''semantic_url'', JStr []),
                  (''replies'', JInt 0), (''images'', JInt 0)]]
   \<and> images_info sample_str ''g'' sample_thread
     = Inr [JObj [(''no'', JInt 111), (''now'', JStr []), (''name'', JStr []),
                  (''com'', JStr []), (''filename'', JStr []), (''ext'', JStr ''.jpg''),
                  (''w'', JInt 0), (''h'', JInt 0), (''time'', JInt 0), (''md5'', JStr []),
                  (''fsize'', JInt 0), (''resto'', JInt 0),
                  (''url'', JStr ''https://i.4cdn.org/g/1700.jpg'')]]"
proof -
  let ?posts = "[JObj [(''no'', JInt 111), (''sub'', JStr ''first''), (''tim'', JInt 1700),
                       (''ext'', JStr ''.jpg'')],
                 JObj [(''no'', JInt 112), (''name'', JStr ''anon'')]]"
  have h1: "py_get sample_thread ''posts'' (JList []) = Inr (JList ?posts)"
    by (simp add: sample_thread_def)
  have h2: "\<forall>p\<in>set ?posts. is_dict p"
    by simp
  have h3: "\<forall>p\<in>set ?posts. has_key ''sub'' p \<or> (has_key ''tim'' p \<and> has_key ''ext'' p)
              \<longrightarrow> has_key ''no'' p"
    by simp
  show ?thesis
    using h1 extraction_total [OF h1 h2 h3, of sample_str "''g''"]
    by (simp add: starter_of_def image_of_def IMAGE_URL_def dec.simps digit_def)
qed

text \<open>
  C3 as stated fails: a thread whose only post has a subject and no \<^verbatim>\<open>no\<close> field makes the
  extraction of thread starters raise \<open>KeyError\<close>.
\<close>

theorem extraction_raises_counterexample:
  "thread_starter_data (JObj [(''posts'', JList [JObj [(''sub'', JStr ''hi'')]])])
     = Inl (KeyError, sq @ ''no'' @ sq)"
  by (simp add: thread_starter_data_def thread_starter_posts_def starter_record_def)

lemma py_getitem_dict_missing:
  "is_dict p \<Longrightarrow> \<not> has_key key p \<Longrightarrow> py_getitem p key = Inl (KeyError, sq @ key @ sq)"
  by (cases p) auto

lemma image_record_Inr:
  assumes "image_record fmt b p = Inr r"
  shows "is_dict p \<and> has_key ''no'' p \<and> has_key ''tim'' p \<and> has_key ''ext'' p
         \<and> r = image_of fmt b p"
proof -
  have d: "is_dict p"
    using assms by (cases p) (simp_all add: image_record_def)
  have no: "has_key ''no'' p"
  proof (rule ccontr)
    assume "\<not> has_key ''no'' p"
    then have "image_record fmt b p = Inl (KeyError, sq @ ''no'' @ sq)"
      using d by (simp add: image_record_def py_getitem_dict_missing)
    with assms show False by simp
  qed
  have tim: "has_key ''tim'' p"
  proof (rule ccontr)
    assume "\<not> has_key ''tim'' p"
    then have "image_record fmt b p = Inl (KeyError, sq @ ''tim'' @ sq)"
      using d no
      by (simp add: image_record_def py_get_dict py_getitem_dict [where d = JNull]
            py_getitem_dict_missing)
    with assms show False by simp
  qed
  have ext: "has_key ''ext'' p"
  proof (rule ccontr)
    assume "\<not> has_key ''ext'' p"
    then have "image_record fmt b p = Inl (KeyError, sq @ ''ext'' @ sq)"
      using d no tim
      by (simp add: image_record_def py_get_dict py_getitem_dict [where d = JNull]
            py_getitem_dict_missing)
    with assms show False by simp
  qed
  from image_record_dict [OF d no tim ext, of fmt b] assms d no tim ext show ?thesis
    by simp
qed

lemma images_loop_Inr:
  "images_loop fmt b posts = Inr recs \<Longrightarrow>
   list_all2 (\<lambda>p r. is_dict p \<and> has_key ''no'' p \<and> has_key ''tim'' p \<and> has_key ''ext'' p \<and> r = image_of fmt b p)
     (filter (\<lambda>p. has_tim_ext p = Inr True) posts) recs"
proof (induction posts arbitrary: recs)
  case Nil
  then show ?case by simp
next
  case (Cons p posts)
  show ?case
  proof (cases "has_tim_ext p")
    case (Inl e)
    with Cons.prems show ?thesis by simp
  next
    case (Inr c)
    show ?thesis
    proof (cases c)
      case False
      with Inr Cons show ?thesis by simp
    next
      case True
      with Inr Cons.prems obtain r rs where
        r: "image_record fmt b p = Inr r" and rs: "images_loop fmt b posts = Inr rs"
        and recs: "recs = r # rs"
        by (auto simp add: bind_r_def split: sum.splits)
      from Cons.IH [OF rs] image_record_Inr [OF r] True Inr recs show ?thesis
        by simp
    qed
  qed
qed

lemma has_tim_ext_not_dict:
  "has_tim_ext p = Inr False \<Longrightarrow> \<not> (has_key ''tim'' p \<and> has_key ''ext'' p)"
  by (cases p) (auto simp add: has_tim_ext_def split: if_splits)

lemma images_loop_tests:
  "images_loop fmt b posts = Inr recs \<Longrightarrow>
   \<forall>p\<in>set posts. has_tim_ext p = Inr (has_key ''tim'' p \<and> has_key ''ext'' p)"
proof (induction posts arbitrary: recs)
  case Nil
  then show ?case by simp
next
  case (Cons p posts)
  show ?case
  proof (cases "has_tim_ext p")
    case (Inl e)
    with Cons.prems show ?thesis by simp
  next
    case (Inr c)
    show ?thesis
    proof (cases c)
      case False
      with Inr Cons has_tim_ext_not_dict [of p] show ?thesis by simp
    next
      case True
      with Inr Cons.prems obtain r rs where
        r: "image_record fmt b p = Inr r" and rs: "images_loop fmt b posts = Inr rs"
        by (auto simp add: bind_r_def split: sum.splits)
      from Cons.IH [OF rs] image_record_Inr [OF r] True Inr show ?thesis
        by simp
    qed
  qed
qed

lemma image_of_fields:
  assumes "is_dict p" "has_key ''no'' p" "has_key ''tim'' p" "has_key ''ext'' p"
  shows "\<exists>no tim ext. py_getitem p ''no'' = Inr no \<and> py_getitem p ''tim'' = Inr tim
           \<and> py_getitem p ''ext'' = Inr ext
           \<and> py_getitem (image_of fmt b p) ''no'' = Inr no
           \<and> py_getitem (image_of fmt b p) ''url''
               = Inr (JStr (IMAGE_URL @ ''/'' @ b @ ''/'' @ fmt tim @ fmt ext))"
  using assms by (simp add: py_getitem_dict [where d = JNull] image_of_def)

lemma images_info_Inr:
  assumes "images_info fmt b thread_data = Inr recs"
  shows "\<exists>posts. bind_r (py_get thread_data ''posts'' (JList [])) py_iter = Inr posts
           \<and> list_all2
                (\<lambda>p r. \<exists>no tim ext.
                   py_getitem p ''no'' = Inr no \<and> py_getitem p ''tim'' = Inr tim
                   \<and> py_getitem p ''ext'' = Inr ext \<and> py_getitem r ''no'' = Inr no
                   \<and> py_getitem r ''url''
                       = Inr (JStr (IMAGE_URL @ ''/'' @ b @ ''/'' @ fmt tim @ fmt ext)))
                (filter (\<lambda>p. has_key ''tim'' p \<and> has_key ''ext'' p) posts) recs"
proof -
  from assms obtain posts where
    posts: "bind_r (py_get thread_data ''posts'' (JList [])) py_iter = Inr posts"
    and loop: "images_loop fmt b posts = Inr recs"
    by (auto simp add: images_info_def bind_r_def split: sum.splits)
  have "filter (\<lambda>p. has_key ''tim'' p \<and> has_key ''ext'' p) posts
          = filter (\<lambda>p. has_tim_ext p = Inr True) posts"
    using images_loop_tests [OF loop] by (intro filter_cong) auto
  moreover have "list_all2
      (\<lambda>p r. is_dict p \<and> has_key ''no'' p \<and> has_key ''tim'' p \<and> has_key ''ext'' p
              \<and> r = image_of fmt b p)
      (filter (\<lambda>p. has_tim_ext p = Inr True) posts) recs"
    by (rule images_loop_Inr [OF loop])
  ultimately have "list_all2
      (\<lambda>p r. \<exists>no tim ext.
         py_getitem p ''no'' = Inr no \<and> py_getitem p ''tim'' = Inr tim
         \<and> py_getitem p ''ext'' = Inr ext \<and> py_getitem r ''no'' = Inr no
         \<and> py_getitem r ''url''
             = Inr (JStr (IMAGE_URL @ ''/'' @ b @ ''/'' @ fmt tim @ fmt ext)))
      (filter (\<lambda>p. has_key ''tim'' p \<and> has_key ''ext'' p) posts) recs"
    using image_of_fields [of _ fmt b]
    by (auto elim!: list_all2_mono)
  with posts show ?thesis by blast
qed

lemma images_loop_missing_no:
  assumes "\<forall>p\<in>set posts. is_dict p"
    and "\<exists>p\<in>set posts. has_key ''tim'' p \<and> has_key ''ext'' p \<and> \<not> has_key ''no'' p"
  shows "images_loop fmt b posts = Inl (KeyError, sq @ ''no'' @ sq)"
  using assms
proof (induction posts)
  case Nil
  then show ?case by simp
next
  case (Cons p posts)
  from Cons.prems(1) have d: "is_dict p" and ds: "\<forall>p\<in>set posts. is_dict p"
    by simp_all
  show ?case
  proof (cases "has_key ''tim'' p \<and> has_key ''ext'' p")
    case False
    with Cons.prems(2) have "\<exists>p\<in>set posts. has_key ''tim'' p \<and> has_key ''ext'' p
                               \<and> \<not> has_key ''no'' p"
      by auto
    from Cons.IH [OF ds this] False d show ?thesis
      by (auto simp add: has_tim_ext_dict)
  next
    case True
    show ?thesis
    proof (cases "has_key ''no'' p")
      case False
      with d have "image_record fmt b p = Inl (KeyError, sq @ ''no'' @ sq)"
        by (simp add: image_record_def py_getitem_dict_missing)
      with True d show ?thesis
        by (simp add: has_tim_ext_dict)
    next
      case no: True
      with Cons.prems(2) have "\<exists>p\<in>set posts. has_key ''tim'' p \<and> has_key ''ext'' p
                                 \<and> \<not> has_key ''no'' p"
        by auto
      from Cons.IH [OF ds this] True d no show ?thesis
        by (simp add: has_tim_ext_dict image_record_dict)
    qed
  qed
qed

text \<open>
  C4, as the code has it. \<^verbatim>\<open>post['no']\<close> is indexed in the record of an image post too.
  For a thread that is a dict whose \<^verbatim>\<open>posts\<close> are dicts, each carrying \<^verbatim>\<open>no\<close> when it
  carries both \<^verbatim>\<open>tim\<close> and \<^verbatim>\<open>ext\<close>, the extraction of image posts returns, in order, one
  record for each post that carries both \<^verbatim>\<open>tim\<close> and \<^verbatim>\<open>ext\<close> and for no other post; the
  record has the post's number, and its \<^verbatim>\<open>url\<close> is the image base, a slash, the board, a
  slash, and the post's \<^verbatim>\<open>tim\<close> followed by its \<^verbatim>\<open>ext\<close>, both as \<^verbatim>\<open>str\<close> prints them. When
  the posts are dicts and one that carries both \<^verbatim>\<open>tim\<close> and \<^verbatim>\<open>ext\<close> has no \<^verbatim>\<open>no\<close>, the
  extraction raises \<open>KeyError\<close> and gives no record at all. And on any input whatever,
  an extraction that returns has returned such records.
\<close>

theorem image_posts_selected_with_url:
  "(\<forall>posts. py_get thread_data ''posts'' (JList []) = Inr (JList posts)
        \<and> (\<forall>p\<in>set posts. is_dict p)
        \<and> (\<forall>p\<in>set posts. has_key ''tim'' p \<and> has_key ''ext'' p \<longrightarrow> has_key ''no'' p)
      \<longrightarrow> (\<exists>recs. images_info fmt b thread_data = Inr recs
             \<and> list_all2
                  (\<lambda>p r. \<exists>no tim ext.
                     py_getitem p ''no'' = Inr no \<and> py_getitem p ''tim'' = Inr tim
                     \<and> py_getitem p ''ext'' = Inr ext \<and> py_getitem r ''no'' = Inr no
                     \<and> py_getitem r ''url''
                         = Inr (JStr (IMAGE_URL @ ''/'' @ b @ ''/'' @ fmt tim @ fmt ext)))
                  (filter (\<lambda>p. has_key ''tim'' p \<and> has_key ''ext'' p) posts) recs))
   \<and> (\<forall>posts. py_get thread_data ''posts'' (JList []) = Inr (JList posts)
        \<and> (\<forall>p\<in>set posts. is_dict p)
        \<and> (\<exists>p\<in>set posts. has_key ''tim'' p \<and> has_key ''ext'' p \<and> \<not> has_key ''no'' p)
      \<longrightarrow> images_info fmt b thread_data = Inl (KeyError, sq @ ''no'' @ sq))
   \<and> (\<forall>recs. images_info fmt b thread_data = Inr recs
      \<longrightarrow> (\<exists>posts. bind_r (py_get thread_data ''posts'' (JList [])) py_iter = Inr posts
             \<and> list_all2
                  (\<lambda>p r. \<exists>no tim ext.
                     py_getitem p ''no'' = Inr no \<and> py_getitem p ''tim'' = Inr tim
                     \<and> py_getitem p ''ext'' = Inr ext \<and> py_getitem r ''no'' = Inr no
                     \<and> py_getitem r ''url''
                         = Inr (JStr (IMAGE_URL @ ''/'' @ b @ ''/'' @ fmt tim @ fmt ext)))
                  (filter (\<lambda>p. has_key ''tim'' p \<and> has_key ''ext'' p) posts) recs))"
proof (intro conjI allI impI)
  fix posts
  assume h: "py_get thread_data ''posts'' (JList []) = Inr (JList posts)
        \<and> (\<forall>p\<in>set posts. is_dict p)
        \<and> (\<forall>p\<in>set posts. has_key ''tim'' p \<and> has_key ''ext'' p \<longrightarrow> has_key ''no'' p)"
  then have ok: "\<forall>p\<in>set posts. is_dict p
                   \<and> (has_key ''tim'' p \<and> has_key ''ext'' p \<longrightarrow> has_key ''no'' p)"
    by blast
  have im: "images_info fmt b thread_data
              = Inr (map (image_of fmt b)
                       (filter (\<lambda>p. has_key ''tim'' p \<and> has_key ''ext'' p) posts))"
    using h images_loop_dicts [OF ok, of fmt b] by (simp add: images_info_def)
  from images_info_Inr [OF im] obtain posts' where
    p': "bind_r (py_get thread_data ''posts'' (JList [])) py_iter = Inr posts'"
    and l: "list_all2
              (\<lambda>p r. \<exists>no tim ext.
                 py_getitem p ''no'' = Inr no \<and> py_getitem p ''tim'' = Inr tim
                 \<and> py_getitem p ''ext'' = Inr ext \<and> py_getitem r ''no'' = Inr no
                 \<and> py_getitem r ''url''
                     = Inr (JStr (IMAGE_URL @ ''/'' @ b @ ''/'' @ fmt tim @ fmt ext)))
              (filter (\<lambda>p. has_key ''tim'' p \<and> has_key ''ext'' p) posts')
              (map (image_of fmt b)
                 (filter (\<lambda>p. has_key ''tim'' p \<and> has_key ''ext'' p) posts))"
    by blast
  from p' h have "posts' = posts"
    by simp
  with im l show "\<exists>recs. images_info fmt b thread_data = Inr recs
      \<and> list_all2
           (\<lambda>p r. \<exists>no tim ext.
              py_getitem p ''no'' = Inr no \<and> py_getitem p ''tim'' = Inr tim
              \<and> py_getitem p ''ext'' = Inr ext \<and> py_getitem r ''no'' = Inr no
              \<and> py_getitem r ''url''
                  = Inr (JStr (IMAGE_URL @ ''/'' @ b @ ''/'' @ fmt tim @ fmt ext)))
           (filter (\<lambda>p. has_key ''tim'' p \<and> has_key ''ext'' p) posts) recs"
    by blast
next
  fix posts
  assume h: "py_get thread_data ''posts'' (JList []) = Inr (JList posts)
        \<and> (\<forall>p\<in>set posts. is_dict p)
        \<and> (\<exists>p\<in>set posts. has_key ''tim'' p \<and> has_key ''ext'' p \<and> \<not> has_key ''no'' p)"
  then have d: "\<forall>p\<in>set posts. is_dict p"
    and bad: "\<exists>p\<in>set posts. has_key ''tim'' p \<and> has_key ''ext'' p \<and> \<not> has_key ''no'' p"
    by blast+
  from h images_loop_missing_no [OF d bad, of fmt b]
  show "images_info fmt b thread_data = Inl (KeyError, sq @ ''no'' @ sq)"
    by (simp add: images_info_def)
next
  fix recs
  assume "images_info fmt b thread_data = Inr recs"
  then show "\<exists>posts. bind_r (py_get thread_data ''posts'' (JList [])) py_iter = Inr posts
      \<and> list_all2
           (\<lambda>p r. \<exists>no tim ext.
              py_getitem p ''no'' = Inr no \<and> py_getitem p ''tim'' = Inr tim
              \<and> py_getitem p ''ext'' = Inr ext \<and> py_getitem r ''no'' = Inr no
              \<and> py_getitem r ''url''
                  = Inr (JStr (IMAGE_URL @ ''/'' @ b @ ''/'' @ fmt tim @ fmt ext)))
           (filter (\<lambda>p. has_key ''tim'' p \<and> has_key ''ext'' p) posts) recs"
    by (rule images_info_Inr)
qed

theorem image_posts_selected_with_url_witness:
  "py_get sample_thread ''posts'' (JList [])
     = Inr (JList [JObj [(''no'', JInt 111), (''sub'', JStr ''first''), (''tim'', JInt 1700),
                         (''ext'', JStr ''.jpg'')],
                   JObj [(''no'', JInt 112), (''name'', JStr ''anon'')]])
   \<and> (\<exists>recs. images_info sample_str ''g'' sample_thread = Inr recs
         \<and> list_all2
              (\<lambda>p r. \<exists>no tim ext.
                 py_getitem p ''no'' = Inr no \<and> py_getitem p ''tim'' = Inr tim
                 \<and> py_getitem p ''ext'' = Inr ext \<and> py_getitem r ''no'' = Inr no
                 \<and> py_getitem r ''url''
                     = Inr (JStr (IMAGE_URL @ ''/'' @ ''g'' @ ''/'' @ sample_str tim
                                  @ sample_str ext)))
              [JObj [(''no'', JInt 111), (''sub'', JStr ''first''), (''tim'', JInt 1700),
                     (''ext'', JStr ''.jpg'')]]
              recs)
   \<and> images_info sample_str ''g''
        (JObj [(''posts'', JList
           [JObj [(''no'', JInt 111), (''tim'', JInt 1700), (''ext'', JStr ''.jpg'')],
            JObj [(''tim'', JInt 1701), (''ext'', JStr ''.png'')]])])
       = Inl (KeyError, sq @ ''no'' @ sq)"
proof -
  let ?posts = "[JObj [(''no'', JInt 111), (''sub'', JStr ''first''), (''tim'', JInt 1700),
                       (''ext'', JStr ''.jpg'')],
                 JObj [(''no'', JInt 112), (''name'', JStr ''anon'')]]"
  let ?bad = "[JObj [(''no'', JInt 111), (''tim'', JInt 1700), (''ext'', JStr ''.jpg'')],
               JObj [(''tim'', JInt 1701), (''ext'', JStr ''.png'')]]"
  have h1: "py_get sample_thread ''posts'' (JList []) = Inr (JList ?posts)"
    by (simp add: sample_thread_def)
  have h2: "\<forall>p\<in>set ?posts. is_dict p"
    by simp
  have h3: "\<forall>p\<in>set ?posts. has_key ''tim'' p \<and> has_key ''ext'' p \<longrightarrow> has_key ''no'' p"
    by simp
  have f: "filter (\<lambda>p. has_key ''tim'' p \<and> has_key ''ext'' p) ?posts
             = [JObj [(''no'', JInt 111), (''sub'', JStr ''first''), (''tim'', JInt 1700),
                      (''ext'', JStr ''.jpg'')]]"
    by simp
  have b1: "py_get (JObj [(''posts'', JList ?bad)]) ''posts'' (JList []) = Inr (JList ?bad)"
    by simp
  have b2: "\<forall>p\<in>set ?bad. is_dict p"
    by simp
  have b3: "\<exists>p\<in>set ?bad. has_key ''tim'' p \<and> has_key ''ext'' p \<and> \<not> has_key ''no'' p"
    by simp
  note A = image_posts_selected_with_url [of sample_thread sample_str "''g''"]
  note B = image_posts_selected_with_url [of "JObj [(''posts'', JList ?bad)]" sample_str
             "''g''"]
  from A h1 h2 h3 have "\<exists>recs. images_info sample_str ''g'' sample_thread = Inr recs
         \<and> list_all2
              (\<lambda>p r. \<exists>no tim ext.
                 py_getitem p ''no'' = Inr no \<and> py_getitem p ''tim'' = Inr tim
                 \<and> py_getitem p ''ext'' = Inr ext \<and> py_getitem r ''no'' = Inr no
                 \<and> py_getitem r ''url''
                     = Inr (JStr (IMAGE_URL @ ''/'' @ ''g'' @ ''/'' @ sample_str tim
                                  @ sample_str ext)))
              (filter (\<lambda>p. has_key ''tim'' p \<and> has_key ''ext'' p) ?posts)
              recs"
    by blast
  then have a: "\<exists>recs. images_info sample_str ''g'' sample_thread = Inr recs
         \<and> list_all2
              (\<lambda>p r. \<exists>no tim ext.
                 py_getitem p ''no'' = Inr no \<and> py_getitem p ''tim'' = Inr tim
                 \<and> py_getitem p ''ext'' = Inr ext \<and> py_getitem r ''no'' = Inr no
                 \<and> py_getitem r ''url''
                     = Inr (JStr (IMAGE_URL @ ''/'' @ ''g'' @ ''/'' @ sample_str tim
                                  @ sample_str ext)))
              [JObj [(''no'', JInt 111), (''sub'', JStr ''first''), (''tim'', JInt 1700),
                     (''ext'', JStr ''.jpg'')]]
              recs"
    by (simp only: f)
  from B b1 b2 b3 have b: "images_info sample_str ''g'' (JObj [(''posts'', JList ?bad)])
      = Inl (KeyError, sq @ ''no'' @ sq)"
    by blast
  from h1 a b show ?thesis
    by blast
qed

text \<open>
  C4 as stated fails: in a thread whose second post carries \<^verbatim>\<open>tim\<close> and \<^verbatim>\<open>ext\<close> and no
  \<^verbatim>\<open>no\<close> field, two posts carry both fields and the extraction includes neither: it
  raises \<open>KeyError\<close>.
\<close>

theorem image_posts_raise_counterexample:
  "filter (\<lambda>p. has_key ''tim'' p \<and> has_key ''ext'' p)
     [JObj [(''no'', JInt 111), (''tim'', JInt 1700), (''ext'', JStr ''.jpg'')],
      JObj [(''tim'', JInt 1701), (''ext'', JStr ''.png'')]]
     = [JObj [(''no'', JInt 111), (''tim'', JInt 1700), (''ext'', JStr ''.jpg'')],
        JObj [(''tim'', JInt 1701), (''ext'', JStr ''.png'')]]
   \<and> images_info sample_str ''g''
        (JObj [(''posts'', JList
           [JObj [(''no'', JInt 111), (''tim'', JInt 1700), (''ext'', JStr ''.jpg'')],
            JObj [(''tim'', JInt 1701), (''ext'', JStr ''.png'')]])])
       = Inl (KeyError, sq @ ''no'' @ sq)"
  by (simp add: images_info_def has_tim_ext_def image_record_def)

section \<open>Properties of the board validation\<close>

text \<open>
  C5. Validation returns exactly for the boards of the allow-list. For any other board it
  raises \<open>ValueError\<close> with a message that quotes the board; the constructor then raises
  the same error and leaves the world as it was, \<^verbatim>\<open>main\<close> exits with status 1, and no
  request has been sent. The constructor sends no request for any board.
\<close>

theorem board_validated_before_network:
  "(validate_board_name b = Inr () \<longleftrightarrow> b \<in> set valid_boards)
   \<and> (b \<notin> set valid_boards \<longrightarrow>
        validate_board_name b
          = Inl (ValueError, ''The board '' @ sq @ b @ sq @ '' is not a valid 4chan board.'')
        \<and> init E b output_dir has_logger w
          = (Inl (ValueError, ''The board '' @ sq @ b @ sq @ '' is not a valid 4chan board.''), w)
        \<and> fst (main E b threads offset directory w) = 1
        \<and> requests (snd (main E b threads offset directory w)) = requests w)
   \<and> requests (snd (init E b output_dir has_logger w)) = requests w"
  by (simp add: validate_board_name_def init_def main_def bind_io_def lift_r_def
        logger_call_def create_directories_def return_io_def Let_def split: option.splits)

theorem board_validated_before_network_witness:
  "''x'' \<notin> set valid_boards
   \<and> init sample_env ''x'' ''out'' True empty_world
      = (Inl (ValueError, ''The board '' @ sq @ ''x'' @ sq @ '' is not a valid 4chan board.''),
         empty_world)
   \<and> validate_board_name ''g'' = Inr ()"
proof -
  have h: "''x'' \<notin> set valid_boards"
    by (simp add: valid_boards_def)
  have g: "''g'' \<in> set valid_boards"
    by (simp add: valid_boards_def)
  show ?thesis
    using h g
      board_validated_before_network [of "''x''" sample_env "''out''" True empty_world]
      board_validated_before_network [of "''g''"]
    by simp
qed

section \<open>Properties of the record writer\<close>

lemma lines_of_line: "nl \<notin> set l \<Longrightarrow> lines_of (l @ nl # s) = l # lines_of s"
  by (induction l) auto

lemma json_lines_simps [simp]:
  "json_lines E [] = []"
  "json_lines E (entry # data) = json_dumps E entry @ nl # json_lines E data"
  by (simp_all add: json_lines_def)

lemma json_lines_append: "json_lines E (xs @ ys) = json_lines E xs @ json_lines E ys"
  by (simp add: json_lines_def)

lemma json_lines_split:
  "json_lines E data = json_lines E (take j data) @ json_lines E (drop j data)"
  by (simp add: json_lines_append [symmetric])

lemma lines_of_json_lines:
  "\<forall>entry\<in>set data. nl \<notin> set (json_dumps E entry) \<Longrightarrow>
   lines_of (json_lines E data) = map (json_dumps E) data"
  by (induction data) (simp_all add: lines_of_line)

lemma logger_call_True [simp]:
  "logger_call True lv msg w = (Inr (), w\<lparr>logged := logged w @ [(lv, msg)]\<rparr>)"
  by (simp add: logger_call_def)

lemma untouched_refl [simp]: "untouched fn w w"
  by (simp add: untouched_def)

lemma untouched_trans: "untouched fn w w1 \<Longrightarrow> untouched fn w1 w2 \<Longrightarrow> untouched fn w w2"
  by (simp add: untouched_def)

lemma prefix_of_written:
  "s @ p = x \<Longrightarrow> \<exists>n'. s @ take n p = take n' (x @ y)"
proof
  assume "s @ p = x"
  then show "s @ take n p = take (length s + min n (length p)) (x @ y)"
    by (auto simp add: min_def)
qed

subsection \<open>The file layer when no call fails\<close>

lemma os_write_ok:
  "io_fault E (io_ops w) = None \<Longrightarrow>
   os_write E fn m w =
     (Inr (), w\<lparr>io_ops := Suc (io_ops w),
                files := (files w)(fn \<mapsto> content w fn @ take m (pending w)),
                pending := drop m (pending w)\<rparr>)"
  by (simp add: os_write_def)

lemma write_file_ok:
  assumes "files w fn = Some c" and "io_fault E (io_ops w) = None"
  shows "\<exists>s p. write_file E fn x w =
            (Inr (), w\<lparr>io_ops := Suc (io_ops w), files := (files w)(fn \<mapsto> c @ s),
                       pending := p\<rparr>)
          \<and> s @ p = pending w @ x"
proof (cases "flush_now E (io_ops w) = 0")
  case True
  with assms have "write_file E fn x w =
      (Inr (), w\<lparr>io_ops := Suc (io_ops w), files := (files w)(fn \<mapsto> c @ []),
                 pending := pending w @ x\<rparr>)"
    by (simp add: write_file_def fun_upd_idem)
  then show ?thesis by blast
next
  case False
  let ?m = "flush_now E (io_ops w)"
  from False assms have "write_file E fn x w =
      (Inr (), w\<lparr>io_ops := Suc (io_ops w),
                 files := (files w)(fn \<mapsto> c @ take ?m (pending w @ x)),
                 pending := drop ?m (pending w @ x)\<rparr>)"
    by (simp add: write_file_def os_write_ok content_def)
  moreover have "take ?m (pending w @ x) @ drop ?m (pending w @ x) = pending w @ x"
    by (rule append_take_drop_id)
  ultimately show ?thesis by blast
qed

lemma write_entries_ok:
  "files w fn = Some c \<Longrightarrow> \<forall>j<length data. io_fault E (io_ops w + j) = None \<Longrightarrow>
   \<exists>s p. write_entries E fn data w =
            (Inr (), w\<lparr>io_ops := io_ops w + length data, files := (files w)(fn \<mapsto> c @ s),
                       pending := p\<rparr>)
         \<and> s @ p = pending w @ json_lines E data"
proof (induction data arbitrary: w c)
  case Nil
  then have "write_entries E fn [] w =
      (Inr (), w\<lparr>io_ops := io_ops w + length ([] :: json list),
                 files := (files w)(fn \<mapsto> c @ []), pending := pending w\<rparr>)"
    by (simp add: return_io_def fun_upd_idem)
  then show ?case by fastforce
next
  case (Cons entry data)
  have f0: "io_fault E (io_ops w) = None"
    using Cons.prems(2) by (metis add.right_neutral length_greater_0_conv list.discI)
  from write_file_ok [OF Cons.prems(1) f0, of "json_dumps E entry @ [nl]"]
  obtain s1 p1 where
    w1: "write_file E fn (json_dumps E entry @ [nl]) w =
           (Inr (), w\<lparr>io_ops := Suc (io_ops w), files := (files w)(fn \<mapsto> c @ s1),
                      pending := p1\<rparr>)"
    and sp1: "s1 @ p1 = pending w @ json_dumps E entry @ [nl]"
    by blast
  let ?w1 = "w\<lparr>io_ops := Suc (io_ops w), files := (files w)(fn \<mapsto> c @ s1), pending := p1\<rparr>"
  have a: "files ?w1 fn = Some (c @ s1)"
    by simp
  have b: "\<forall>j<length data. io_fault E (io_ops ?w1 + j) = None"
    using Cons.prems(2) by auto
  from Cons.IH [OF a b] obtain s2 p2 where
    w2: "write_entries E fn data ?w1 =
           (Inr (), ?w1\<lparr>io_ops := io_ops ?w1 + length data,
                        files := (files ?w1)(fn \<mapsto> (c @ s1) @ s2), pending := p2\<rparr>)"
    and sp2: "s2 @ p2 = pending ?w1 @ json_lines E data"
    by blast
  have "write_entries E fn (entry # data) w =
      (Inr (), w\<lparr>io_ops := io_ops w + length (entry # data),
                 files := (files w)(fn \<mapsto> c @ (s1 @ s2)), pending := p2\<rparr>)"
    using w1 w2 by (simp add: bind_io_def)
  moreover have "(s1 @ s2) @ p2 = pending w @ json_lines E (entry # data)"
    using sp1 sp2 by simp
  ultimately show ?case by blast
qed

lemma close_file_ok:
  assumes "files w fn = Some c" and "io_fault E (io_ops w) = None"
  shows "close_file E fn w =
     (Inr (), w\<lparr>io_ops := Suc (io_ops w), files := (files w)(fn \<mapsto> c @ pending w),
                handles := handles w - 1, pending := []\<rparr>)"
proof (cases "pending w = []")
  case True
  have "w\<lparr>io_ops := Suc (io_ops w), handles := handles w - 1\<rparr>
          = w\<lparr>io_ops := Suc (io_ops w), files := (files w)(fn \<mapsto> c @ pending w),
              handles := handles w - 1, pending := []\<rparr>"
    using True assms(1) by (cases w) (simp add: fun_upd_idem)
  with True show ?thesis
    by (simp add: close_file_def)
next
  case False
  with assms show ?thesis
    by (simp add: close_file_def os_write_ok content_def)
qed

lemma open_file_ok:
  "io_fault E (io_ops w) = None \<Longrightarrow>
   open_file E fn am w =
     (Inr (), w\<lparr>io_ops := Suc (io_ops w),
                files := (files w)(fn \<mapsto> (if am then content w fn else [])),
                opened := Suc (opened w), handles := Suc (handles w), pending := []\<rparr>)"
  by (simp add: open_file_def)

lemma open_file_fault:
  "io_fault E (io_ops w) = Some msg \<Longrightarrow>
   open_file E fn am w =
     (Inl (OSError, msg), w\<lparr>io_ops := Suc (io_ops w), io_errors := Suc (io_errors w)\<rparr>)"
  by (simp add: open_file_def)

lemma with_open_ok:
  assumes "\<forall>j\<le>Suc (length data). io_fault E (io_ops w + j) = None"
  shows "with_open E fn am (write_entries E fn data) w =
     (Inr (), w\<lparr>io_ops := io_ops w + length data + 2,
                files := (files w)(fn \<mapsto> (if am then content w fn else []) @ json_lines E data),
                opened := Suc (opened w), pending := []\<rparr>)"
proof -
  let ?base = "if am then content w fn else []"
  let ?w0 = "w\<lparr>io_ops := Suc (io_ops w), files := (files w)(fn \<mapsto> ?base),
               opened := Suc (opened w), handles := Suc (handles w), pending := []\<rparr>"
  have f0: "io_fault E (io_ops w) = None"
    using assms by (metis add.right_neutral le0)
  have a: "files ?w0 fn = Some ?base"
    by simp
  have b: "\<forall>j<length data. io_fault E (io_ops ?w0 + j) = None"
  proof (intro allI impI)
    fix j
    assume "j < length data"
    then have "Suc j \<le> Suc (length data)" by simp
    with assms have "io_fault E (io_ops w + Suc j) = None" by blast
    then show "io_fault E (io_ops ?w0 + j) = None" by simp
  qed
  from write_entries_ok [OF a b] obtain s p where
    body: "write_entries E fn data ?w0 =
             (Inr (), ?w0\<lparr>io_ops := io_ops ?w0 + length data,
                          files := (files ?w0)(fn \<mapsto> ?base @ s), pending := p\<rparr>)"
    and sp: "s @ p = pending ?w0 @ json_lines E data"
    by blast
  let ?w1 = "?w0\<lparr>io_ops := io_ops ?w0 + length data,
                 files := (files ?w0)(fn \<mapsto> ?base @ s), pending := p\<rparr>"
  have c: "files ?w1 fn = Some (?base @ s)"
    by simp
  have d: "io_fault E (io_ops ?w1) = None"
  proof -
    from assms have "io_fault E (io_ops w + Suc (length data)) = None" by blast
    then show ?thesis by simp
  qed
  from sp have sp': "s @ p = json_lines E data"
    by simp
  have "close_file E fn ?w1 =
      (Inr (), ?w1\<lparr>io_ops := Suc (io_ops ?w1),
                   files := (files ?w1)(fn \<mapsto> (?base @ s) @ pending ?w1),
                   handles := handles ?w1 - 1, pending := []\<rparr>)"
    by (rule close_file_ok [OF c d])
  with body open_file_ok [OF f0, of fn am] sp' show ?thesis
    by (simp add: with_open_def bind_io_def cong: if_cong)
qed

lemma with_open_open_fault:
  "io_fault E (io_ops w) = Some msg \<Longrightarrow>
   with_open E fn am body w =
     (Inl (OSError, msg), w\<lparr>io_ops := Suc (io_ops w), io_errors := Suc (io_errors w)\<rparr>)"
  by (simp add: with_open_def bind_io_def open_file_fault)

lemma save_to_json_ok:
  assumes "\<forall>j\<le>Suc (length data). io_fault E (io_ops w + j) = None"
  shows "save_to_json E data fn am lg w =
     (Inr (), w\<lparr>logged := logged w @ (if lg then [(INFO, ''Saving data to '' @ fn)] else []),
                io_ops := io_ops w + length data + 2,
                files := (files w)(fn \<mapsto> (if am then content w fn else []) @ json_lines E data),
                opened := Suc (opened w), pending := []\<rparr>)"
proof (cases lg)
  case True
  let ?w0 = "w\<lparr>logged := logged w @ [(INFO, ''Saving data to '' @ fn)]\<rparr>"
  have "\<forall>j\<le>Suc (length data). io_fault E (io_ops ?w0 + j) = None"
    using assms by simp
  from with_open_ok [OF this, of fn am] True show ?thesis
    by (simp add: save_to_json_def bind_io_def try_io_def content_def)
next
  case False
  from with_open_ok [OF assms, of fn am] False show ?thesis
    by (simp add: save_to_json_def bind_io_def try_io_def return_io_def)
qed

subsection \<open>The file layer whatever fails\<close>

lemma os_write_any:
  assumes "files w fn = Some c" and "os_write E fn m w = (r, w')"
  shows "\<exists>n. files w' fn = Some (c @ take n (pending w)) \<and> pending w' = drop n (pending w)
           \<and> (r = Inr () \<longrightarrow> n = m)"
    and "handles w' = handles w \<and> opened w' = opened w \<and> logged w' = logged w
         \<and> untouched fn w w'
         \<and> io_errors w' = (if isl r then Suc (io_errors w) else io_errors w)"
  using assms
  by (auto simp add: os_write_def content_def untouched_def split: option.splits)

lemma write_file_any:
  assumes "files w fn = Some c" and "write_file E fn x w = (r, w')"
  shows "\<exists>s. files w' fn = Some (c @ s) \<and> s @ pending w' = pending w @ x"
    and "handles w' = handles w \<and> opened w' = opened w \<and> logged w' = logged w
         \<and> untouched fn w w'
         \<and> io_errors w' = (if isl r then Suc (io_errors w) else io_errors w)"
proof -
  show "\<exists>s. files w' fn = Some (c @ s) \<and> s @ pending w' = pending w @ x"
  proof (cases "flush_now E (io_ops w) = 0")
    case True
    with assms have "files w' fn = Some (c @ []) \<and> [] @ pending w' = pending w @ x"
      by (auto simp add: write_file_def)
    then show ?thesis by blast
  next
    case False
    let ?w1 = "w\<lparr>pending := pending w @ x\<rparr>"
    from False assms(2) have run: "os_write E fn (flush_now E (io_ops w)) ?w1 = (r, w')"
      by (simp add: write_file_def)
    have "files ?w1 fn = Some c"
      using assms(1) by simp
    from os_write_any(1) [OF this run] obtain n where
      "files w' fn = Some (c @ take n (pending ?w1))" "pending w' = drop n (pending ?w1)"
      by blast
    then have "files w' fn = Some (c @ take n (pending w @ x))
               \<and> take n (pending w @ x) @ pending w' = pending w @ x"
      by (simp del: take_append drop_append)
    then show ?thesis by blast
  qed
  show "handles w' = handles w \<and> opened w' = opened w \<and> logged w' = logged w
        \<and> untouched fn w w'
        \<and> io_errors w' = (if isl r then Suc (io_errors w) else io_errors w)"
    using assms
    by (auto simp add: write_file_def os_write_def untouched_def
          split: if_splits option.splits)
qed

lemma write_entries_any:
  "files w fn = Some c \<Longrightarrow> write_entries E fn data w = (r, w') \<Longrightarrow>
   (\<exists>s j. files w' fn = Some (c @ s) \<and> j \<le> length data
          \<and> s @ pending w' = pending w @ json_lines E (take j data)
          \<and> (r = Inr () \<longrightarrow> j = length data))
   \<and> handles w' = handles w \<and> opened w' = opened w \<and> logged w' = logged w
   \<and> untouched fn w w'
   \<and> io_errors w' = (if isl r then Suc (io_errors w) else io_errors w)"
proof (induction data arbitrary: w c)
  case Nil
  then have "files w' fn = Some (c @ []) \<and> (0::nat) \<le> length ([] :: json list)
             \<and> [] @ pending w' = pending w @ json_lines E (take 0 [])
             \<and> (r = Inr () \<longrightarrow> (0::nat) = length ([] :: json list))"
    by (auto simp add: return_io_def)
  moreover from Nil have "handles w' = handles w \<and> opened w' = opened w \<and> logged w' = logged w
      \<and> untouched fn w w' \<and> io_errors w' = (if isl r then Suc (io_errors w) else io_errors w)"
    by (auto simp add: return_io_def)
  ultimately show ?case by blast
next
  case (Cons entry data)
  obtain r1 w1 where one: "write_file E fn (json_dumps E entry @ [nl]) w = (r1, w1)"
    by (cases "write_file E fn (json_dumps E entry @ [nl]) w")
  from write_file_any(1) [OF Cons.prems(1) one] obtain s1 where
    f1: "files w1 fn = Some (c @ s1)"
    and sp1: "s1 @ pending w1 = pending w @ json_dumps E entry @ [nl]"
    by blast
  note fr1 = write_file_any(2) [OF Cons.prems(1) one]
  show ?case
  proof (cases r1)
    case (Inl e)
    with one Cons.prems(2) have res: "r = Inl e" "w' = w1"
      by (simp_all add: bind_io_def)
    have "files w' fn = Some (c @ s1) \<and> Suc 0 \<le> length (entry # data)
          \<and> s1 @ pending w' = pending w @ json_lines E (take (Suc 0) (entry # data))
          \<and> (r = Inr () \<longrightarrow> Suc 0 = length (entry # data))"
      using f1 sp1 res by simp
    moreover have "handles w' = handles w \<and> opened w' = opened w \<and> logged w' = logged w
        \<and> untouched fn w w'
        \<and> io_errors w' = (if isl r then Suc (io_errors w) else io_errors w)"
      using fr1 res Inl by simp
    ultimately show ?thesis by blast
  next
    case (Inr u)
    with one Cons.prems(2) have rest: "write_entries E fn data w1 = (r, w')"
      by (simp add: bind_io_def)
    from Cons.IH [OF f1 rest] obtain s2 j where
      f2: "files w' fn = Some ((c @ s1) @ s2)" and j: "j \<le> length data"
      and sp2: "s2 @ pending w' = pending w1 @ json_lines E (take j data)"
      and full: "r = Inr () \<longrightarrow> j = length data"
      and fr2: "handles w' = handles w1 \<and> opened w' = opened w1 \<and> logged w' = logged w1
                \<and> untouched fn w1 w'
                \<and> io_errors w' = (if isl r then Suc (io_errors w1) else io_errors w1)"
      by blast
    have "files w' fn = Some (c @ (s1 @ s2)) \<and> Suc j \<le> length (entry # data)
          \<and> (s1 @ s2) @ pending w' = pending w @ json_lines E (take (Suc j) (entry # data))
          \<and> (r = Inr () \<longrightarrow> Suc j = length (entry # data))"
      using f2 j sp1 sp2 full by simp
    moreover have "handles w' = handles w \<and> opened w' = opened w \<and> logged w' = logged w
        \<and> untouched fn w w'
        \<and> io_errors w' = (if isl r then Suc (io_errors w) else io_errors w)"
      using fr1 fr2 Inr untouched_trans [of fn w w1 w'] by simp
    ultimately show ?thesis by blast
  qed
qed

lemma close_file_any:
  assumes "files w fn = Some c" and "close_file E fn w = (r, w')"
  shows "\<exists>n. files w' fn = Some (c @ take n (pending w))
           \<and> (r = Inr () \<longrightarrow> take n (pending w) = pending w)"
    and "Suc (handles w') = Suc (handles w - 1) \<and> opened w' = opened w \<and> logged w' = logged w
         \<and> untouched fn w w'
         \<and> io_errors w' = (if isl r then Suc (io_errors w) else io_errors w)"
proof -
  show "\<exists>n. files w' fn = Some (c @ take n (pending w))
          \<and> (r = Inr () \<longrightarrow> take n (pending w) = pending w)"
  proof (cases "pending w = []")
    case True
    with assms have "files w' fn = Some (c @ take 0 (pending w))
                     \<and> (r = Inr () \<longrightarrow> take 0 (pending w) = pending w)"
      by (auto simp add: close_file_def)
    then show ?thesis by blast
  next
    case False
    obtain r1 w1 where run: "os_write E fn (length (pending w)) w = (r1, w1)"
      by (cases "os_write E fn (length (pending w)) w")
    with False assms(2) have res: "r = r1" "w' = w1\<lparr>handles := handles w1 - 1, pending := []\<rparr>"
      by (simp_all add: close_file_def)
    from os_write_any(1) [OF assms(1) run] obtain n where
      "files w1 fn = Some (c @ take n (pending w))" "r1 = Inr () \<longrightarrow> n = length (pending w)"
      by blast
    with res have "files w' fn = Some (c @ take n (pending w))
                   \<and> (r = Inr () \<longrightarrow> take n (pending w) = pending w)"
      by simp
    then show ?thesis by blast
  qed
  show "Suc (handles w') = Suc (handles w - 1) \<and> opened w' = opened w \<and> logged w' = logged w
        \<and> untouched fn w w'
        \<and> io_errors w' = (if isl r then Suc (io_errors w) else io_errors w)"
    using assms
    by (auto simp add: close_file_def os_write_def untouched_def
          split: if_splits option.splits)
qed

lemma with_open_any:
  assumes ok: "io_fault E (io_ops w) = None"
    and run: "with_open E fn am (write_entries E fn data) w = (r, w')"
  shows "\<exists>n. files w' fn = Some ((if am then content w fn else []) @ take n (json_lines E data))"
    and "r = Inr () \<longrightarrow>
           files w' fn = Some ((if am then content w fn else []) @ json_lines E data)"
    and "handles w' = handles w \<and> opened w' = Suc (opened w) \<and> logged w' = logged w
         \<and> untouched fn w w'
         \<and> (r = Inr () \<longrightarrow> io_errors w' = io_errors w)
         \<and> (isl r \<longrightarrow> io_errors w < io_errors w')"
proof -
  let ?base = "if am then content w fn else []"
  let ?w0 = "w\<lparr>io_ops := Suc (io_ops w), files := (files w)(fn \<mapsto> ?base),
               opened := Suc (opened w), handles := Suc (handles w), pending := []\<rparr>"
  obtain rb w1 where body: "write_entries E fn data ?w0 = (rb, w1)"
    by (cases "write_entries E fn data ?w0")
  obtain rc w2 where close: "close_file E fn w1 = (rc, w2)"
    by (cases "close_file E fn w1")
  have a: "files ?w0 fn = Some ?base"
    by simp
  from write_entries_any [OF a body] obtain s j where
    f1: "files w1 fn = Some (?base @ s)" and j: "j \<le> length data"
    and sp: "s @ pending w1 = json_lines E (take j data)"
    and full: "rb = Inr () \<longrightarrow> j = length data"
    and fr1: "handles w1 = handles ?w0 \<and> opened w1 = opened ?w0 \<and> logged w1 = logged ?w0
              \<and> untouched fn ?w0 w1
              \<and> io_errors w1 = (if isl rb then Suc (io_errors ?w0) else io_errors ?w0)"
    by auto
  from close_file_any(1) [OF f1 close] obtain n where
    f2: "files w2 fn = Some ((?base @ s) @ take n (pending w1))"
    and all: "rc = Inr () \<longrightarrow> take n (pending w1) = pending w1"
    by blast
  note fr2 = close_file_any(2) [OF f1 close]
  from run open_file_ok [OF ok, of fn am] body close
  have res: "w' = w2" "r = (case rc of Inl e \<Rightarrow> Inl e | Inr u \<Rightarrow> rb)"
    by (auto simp add: with_open_def bind_io_def split: sum.splits)
  from prefix_of_written [OF sp, of n "json_lines E (drop j data)"]
  obtain n' where "s @ take n (pending w1) = take n' (json_lines E data)"
    using json_lines_split [of E data j] by auto
  with f2 res(1) have "files w' fn = Some (?base @ take n' (json_lines E data))"
    by simp
  then show "\<exists>n. files w' fn = Some (?base @ take n (json_lines E data))"
    by blast
  show "r = Inr () \<longrightarrow> files w' fn = Some (?base @ json_lines E data)"
  proof
    assume "r = Inr ()"
    with res(2) have "rc = Inr ()" "rb = Inr ()"
      by (cases rc; simp)+
    with full all sp have "s @ take n (pending w1) = json_lines E data"
      by simp
    with f2 res(1) show "files w' fn = Some (?base @ json_lines E data)"
      by simp
  qed
  have u0: "untouched fn w ?w0"
    by (simp add: untouched_def)
  from fr1 fr2 have u: "untouched fn w w2"
    using untouched_trans [OF u0, of w1] untouched_trans [of fn w w1 w2] by blast
  from fr1 fr2 res u
  show "handles w' = handles w \<and> opened w' = Suc (opened w) \<and> logged w' = logged w
        \<and> untouched fn w w'
        \<and> (r = Inr () \<longrightarrow> io_errors w' = io_errors w)
        \<and> (isl r \<longrightarrow> io_errors w < io_errors w')"
    by (cases rc; cases rb) auto
qed

lemma save_to_json_any:
  assumes run: "save_to_json E data fn am lg w = (r, w')"
  shows "handles w' = handles w \<and> opened w' \<le> Suc (opened w) \<and> untouched fn w w'
         \<and> (r = Inr () \<longrightarrow> io_errors w' = io_errors w)
         \<and> (isl r \<longrightarrow> io_errors w < io_errors w')"
    and "logged w' = logged w @
           (if lg then (INFO, ''Saving data to '' @ fn) #
              (case r of Inl e \<Rightarrow> [(ERROR, ''Error saving data to '' @ fn @ '': '' @ snd e)]
                       | Inr u \<Rightarrow> [])
            else [])"
    and "io_fault E (io_ops w) = None \<longrightarrow>
           opened w' = Suc (opened w)
           \<and> (\<exists>n. files w' fn
                    = Some ((if am then content w fn else []) @ take n (json_lines E data)))
           \<and> (r = Inr () \<longrightarrow>
                 files w' fn = Some ((if am then content w fn else []) @ json_lines E data))"
    and "\<forall>msg. io_fault E (io_ops w) = Some msg \<longrightarrow> r = Inl (OSError, msg) \<and> files w' = files w"
proof -
  let ?w0 = "if lg then w\<lparr>logged := logged w @ [(INFO, ''Saving data to '' @ fn)]\<rparr> else w"
  obtain r1 w1 where body: "with_open E fn am (write_entries E fn data) ?w0 = (r1, w1)"
    by (cases "with_open E fn am (write_entries E fn data) ?w0")
  have res: "r = r1" "handles w' = handles w1" "opened w' = opened w1"
    "io_errors w' = io_errors w1" "files w' = files w1" "untouched fn w1 w'"
    "logged w' = logged w1 @
       (if lg then (case r1 of Inl e \<Rightarrow> [(ERROR, ''Error saving data to '' @ fn @ '': '' @ snd e)]
                             | Inr u \<Rightarrow> [])
        else [])"
    using run body
    by (cases r1; cases lg;
        auto simp add: save_to_json_def bind_io_def try_io_def return_io_def raise_io_def
          untouched_def)+
  have w0: "io_ops ?w0 = io_ops w" "handles ?w0 = handles w" "opened ?w0 = opened w"
    "io_errors ?w0 = io_errors w" "files ?w0 = files w" "content ?w0 fn = content w fn"
    "untouched fn w ?w0"
    "logged ?w0 = logged w @ (if lg then [(INFO, ''Saving data to '' @ fn)] else [])"
    by (simp_all add: content_def untouched_def)
  show "\<forall>msg. io_fault E (io_ops w) = Some msg \<longrightarrow> r = Inl (OSError, msg) \<and> files w' = files w"
  proof (intro allI impI)
    fix msg
    assume "io_fault E (io_ops w) = Some msg"
    then have "io_fault E (io_ops ?w0) = Some msg"
      by (simp add: w0)
    from with_open_open_fault [OF this, of fn am "write_entries E fn data"] body res w0
    show "r = Inl (OSError, msg) \<and> files w' = files w"
      by (cases lg) auto
  qed
  show "io_fault E (io_ops w) = None \<longrightarrow>
          opened w' = Suc (opened w)
          \<and> (\<exists>n. files w' fn
                   = Some ((if am then content w fn else []) @ take n (json_lines E data)))
          \<and> (r = Inr () \<longrightarrow>
                files w' fn = Some ((if am then content w fn else []) @ json_lines E data))"
  proof
    assume "io_fault E (io_ops w) = None"
    then have ok: "io_fault E (io_ops ?w0) = None"
      by (simp add: w0)
    from with_open_any [OF ok body] res w0
    show "opened w' = Suc (opened w)
          \<and> (\<exists>n. files w' fn
                   = Some ((if am then content w fn else []) @ take n (json_lines E data)))
          \<and> (r = Inr () \<longrightarrow>
                files w' fn = Some ((if am then content w fn else []) @ json_lines E data))"
      by (cases lg) auto
  qed
  have fr: "handles w1 = handles w \<and> opened w1 \<le> Suc (opened w) \<and> logged w1 = logged ?w0
            \<and> untouched fn w w1
            \<and> (r1 = Inr () \<longrightarrow> io_errors w1 = io_errors w)
            \<and> (isl r1 \<longrightarrow> io_errors w < io_errors w1)"
  proof (cases "io_fault E (io_ops w)")
    case None
    then have ok: "io_fault E (io_ops ?w0) = None"
      by (simp add: w0)
    from with_open_any(3) [OF ok body] w0 untouched_trans [of fn w ?w0 w1] show ?thesis
      by (cases lg) auto
  next
    case (Some msg)
    then have "io_fault E (io_ops ?w0) = Some msg"
      by (simp add: w0)
    from with_open_open_fault [OF this, of fn am "write_entries E fn data"] body
    show ?thesis
      by (cases lg) (auto simp add: untouched_def)
  qed
  from fr res untouched_trans [of fn w w1 w']
  show "handles w' = handles w \<and> opened w' \<le> Suc (opened w) \<and> untouched fn w w'
        \<and> (r = Inr () \<longrightarrow> io_errors w' = io_errors w)
        \<and> (isl r \<longrightarrow> io_errors w < io_errors w')"
    by auto
  from fr res w0
  show "logged w' = logged w @
          (if lg then (INFO, ''Saving data to '' @ fn) #
             (case r of Inl e \<Rightarrow> [(ERROR, ''Error saving data to '' @ fn @ '': '' @ snd e)]
                      | Inr u \<Rightarrow> [])
           else [])"
    by (cases lg) auto
qed

lemma save_to_json_empty:
  assumes "io_fault E (io_ops w) = None"
  shows "save_to_json E [] fn am lg w =
     (Inr (), w\<lparr>logged := logged w @ (if lg then [(INFO, ''Saving data to '' @ fn)] else []),
                io_ops := io_ops w + 2,
                files := (files w)(fn \<mapsto> (if am then content w fn else [])),
                opened := Suc (opened w), pending := []\<rparr>)"
proof (cases lg)
  case True
  let ?w0 = "w\<lparr>logged := logged w @ [(INFO, ''Saving data to '' @ fn)]\<rparr>"
  have "io_fault E (io_ops ?w0) = None"
    using assms by simp
  from open_file_ok [OF this, of fn am] True show ?thesis
    by (simp add: save_to_json_def bind_io_def try_io_def with_open_def return_io_def
          close_file_def content_def)
next
  case False
  from open_file_ok [OF assms, of fn am] False show ?thesis
    by (simp add: save_to_json_def bind_io_def try_io_def with_open_def return_io_def
          close_file_def)
qed

text \<open>
  C7. The writer opens the target once and closes the handle however it ends: the number of
  open handles is what it was, and at most one handle was opened. When no call on the file
  layer fails (the open, the writes, the close), it returns, exactly one handle was opened,
  and the file holds what it held before (append) or nothing (overwrite), followed by
  \<^verbatim>\<open>json.dumps\<close> of each record and a newline, in the order of the sequence, however the
  handle buffers; as \<^verbatim>\<open>json.dumps\<close> writes no newline inside a record, the lines written
  are the records, one line each.
\<close>

theorem record_writer_lines:
  "handles (snd (save_to_json E data fn am lg w)) = handles w
   \<and> opened (snd (save_to_json E data fn am lg w)) \<le> Suc (opened w)
   \<and> ((\<forall>j\<le>Suc (length data). io_fault E (io_ops w + j) = None) \<longrightarrow>
        fst (save_to_json E data fn am lg w) = Inr ()
        \<and> opened (snd (save_to_json E data fn am lg w)) = Suc (opened w)
        \<and> content (snd (save_to_json E data fn am lg w)) fn
            = (if am then content w fn else [])
              @ concat (map (\<lambda>entry. json_dumps E entry @ [nl]) data)
        \<and> ((\<forall>entry\<in>set data. nl \<notin> set (json_dumps E entry)) \<longrightarrow>
             lines_of (concat (map (\<lambda>entry. json_dumps E entry @ [nl]) data))
               = map (json_dumps E) data))"
proof -
  obtain r w' where res: "save_to_json E data fn am lg w = (r, w')"
    by (cases "save_to_json E data fn am lg w")
  from save_to_json_any(1) [OF res] res
  have frame: "handles (snd (save_to_json E data fn am lg w)) = handles w
               \<and> opened (snd (save_to_json E data fn am lg w)) \<le> Suc (opened w)"
    by simp
  have ok: "fst (save_to_json E data fn am lg w) = Inr ()
        \<and> opened (snd (save_to_json E data fn am lg w)) = Suc (opened w)
        \<and> content (snd (save_to_json E data fn am lg w)) fn
            = (if am then content w fn else [])
              @ concat (map (\<lambda>entry. json_dumps E entry @ [nl]) data)"
    if "\<forall>j\<le>Suc (length data). io_fault E (io_ops w + j) = None"
    using save_to_json_ok [OF that, of fn am lg]
    by (simp add: content_def json_lines_def)
  have lines: "lines_of (concat (map (\<lambda>entry. json_dumps E entry @ [nl]) data))
               = map (json_dumps E) data"
    if "\<forall>entry\<in>set data. nl \<notin> set (json_dumps E entry)"
    using lines_of_json_lines [OF that] by (simp add: json_lines_def)
  from frame ok lines show ?thesis
    by blast
qed

theorem record_writer_lines_witness:
  "nl \<notin> set (json_dumps sample_env (JObj [(''no'', JInt 111)]))
   \<and> nl \<notin> set (json_dumps sample_env (JObj [(''no'', JInt 222)]))
   \<and> fst (save_to_json sample_env [JObj [(''no'', JInt 111)], JObj [(''no'', JInt 222)]]
             ''out/g/thread_list.json'' False True empty_world) = Inr ()
   \<and> lines_of (content (snd (save_to_json sample_env
                  [JObj [(''no'', JInt 111)], JObj [(''no'', JInt 222)]]
                  ''out/g/thread_list.json'' False True empty_world))
               ''out/g/thread_list.json'')
     = [sample_dumps (JObj [(''no'', JInt 111)]), sample_dumps (JObj [(''no'', JInt 222)])]"
proof -
  let ?data = "[JObj [(''no'', JInt 111)], JObj [(''no'', JInt 222)]]"
  have h1: "\<forall>j\<le>Suc (length ?data). io_fault sample_env (io_ops empty_world + j) = None"
    by (simp add: sample_env_def)
  have h2: "\<forall>entry\<in>set ?data. nl \<notin> set (json_dumps sample_env entry)"
    by (simp add: sample_env_def dq_def nl_def dec.simps digit_def)
  from record_writer_lines [of sample_env ?data "''out/g/thread_list.json''" False True
         empty_world] h1 h2
  show ?thesis
    by (simp add: sample_env_def)
qed






section \<open>Properties of one fetch of a thread\<close>

lemma fetch_thread_ok:
  "http_get E (length (requests w)) (thread_url E f t) = Inr td \<Longrightarrow>
   fetch_thread E f t w = (Inr td, w\<lparr>requests := requests w @ [thread_url E f t]\<rparr>)"
  by (simp add: fetch_thread_def try_io_def session_get_def)

lemma save_thread_starter_ok:
  assumes "thread_starter_data td = Inr starters"
    and "\<forall>j\<le>Suc (length starters). io_fault E (io_ops w + j) = None"
  shows "save_thread_starter E f td w =
     (Inr (), w\<lparr>logged := logged w @ (if self_logger f
                  then [(INFO, ''Saving data to '' @ thread_list_path f)] else []),
                io_ops := io_ops w + length starters + 2,
                files := (files w)(thread_list_path f \<mapsto>
                           (if True then content w (thread_list_path f) else [])
                           @ json_lines E starters),
                opened := Suc (opened w), pending := []\<rparr>)"
  using assms(1) save_to_json_ok [OF assms(2), of "thread_list_path f" True "self_logger f"]
  by (simp add: save_thread_starter_def bind_io_def lift_r_def)

lemma save_image_posts_ok:
  assumes "images_info (py_str E) (self_board f) td = Inr imgs"
    and "\<forall>j\<le>Suc (length imgs). io_fault E (io_ops w + j) = None"
  shows "save_image_posts E f td t w =
     (Inr (), w\<lparr>logged := logged w @ (if self_logger f
                  then [(INFO, ''Saving data to '' @ image_path E f t)] else []),
                io_ops := io_ops w + length imgs + 2,
                files := (files w)(image_path E f t \<mapsto>
                           (if False then content w (image_path E f t) else [])
                           @ json_lines E imgs),
                opened := Suc (opened w), pending := []\<rparr>)"
  using assms(1) save_to_json_ok [OF assms(2), of "image_path E f t" False "self_logger f"]
  by (simp add: save_image_posts_def bind_io_def lift_r_def)

lemma process_thread_ok:
  assumes lg: "self_logger f"
    and get: "http_get E (length (requests w)) (thread_url E f t) = Inr td"
    and st: "thread_starter_data td = Inr starters"
    and im: "images_info (py_str E) (self_board f) td = Inr imgs"
    and nofault: "\<forall>j<length starters + length imgs + 4. io_fault E (io_ops w + j) = None"
  shows "process_thread E f t w =
     (Inr (),
      w\<lparr>requests := requests w @ [thread_url E f t],
         logged := logged w @
           [(INFO, ''Fetched thread number '' @ py_str E t),
            (INFO, ''Saving data to '' @ thread_list_path f),
            (INFO, ''Saved thread starter for thread '' @ py_str E t),
            (INFO, ''Saving data to '' @ image_path E f t),
            (INFO, ''Saved image posts for thread '' @ py_str E t)],
         io_ops := io_ops w + length starters + length imgs + 4,
         files := ((files w)(thread_list_path f \<mapsto>
                      content w (thread_list_path f) @ json_lines E starters))
                    (image_path E f t \<mapsto> json_lines E imgs),
         opened := Suc (Suc (opened w)), pending := []\<rparr>)"
proof -
  let ?w0 = "w\<lparr>requests := requests w @ [thread_url E f t]\<rparr>"
  let ?w1 = "?w0\<lparr>logged := logged ?w0 @ [(INFO, ''Fetched thread number '' @ py_str E t)]\<rparr>"
  let ?w2 = "?w1\<lparr>logged := logged ?w1 @ (if self_logger f
                  then [(INFO, ''Saving data to '' @ thread_list_path f)] else []),
                io_ops := io_ops ?w1 + length starters + 2,
                files := (files ?w1)(thread_list_path f \<mapsto>
                           (if True then content ?w1 (thread_list_path f) else [])
                           @ json_lines E starters),
                opened := Suc (opened ?w1), pending := []\<rparr>"
  let ?w3 = "?w2\<lparr>logged := logged ?w2 @
                  [(INFO, ''Saved thread starter for thread '' @ py_str E t)]\<rparr>"
  let ?w4 = "?w3\<lparr>logged := logged ?w3 @ (if self_logger f
                  then [(INFO, ''Saving data to '' @ image_path E f t)] else []),
                io_ops := io_ops ?w3 + length imgs + 2,
                files := (files ?w3)(image_path E f t \<mapsto>
                           (if False then content ?w3 (image_path E f t) else [])
                           @ json_lines E imgs),
                opened := Suc (opened ?w3), pending := []\<rparr>"
  let ?w5 = "?w4\<lparr>logged := logged ?w4 @
                  [(INFO, ''Saved image posts for thread '' @ py_str E t)]\<rparr>"
  have s0: "fetch_thread E f t w = (Inr td, ?w0)"
    by (rule fetch_thread_ok [OF get])
  have s1: "logger_call (self_logger f) INFO (''Fetched thread number '' @ py_str E t) ?w0
              = (Inr (), ?w1)"
    using lg by simp
  have a: "\<forall>j\<le>Suc (length starters). io_fault E (io_ops ?w1 + j) = None"
    using nofault by simp
  have s2: "save_thread_starter E f td ?w1 = (Inr (), ?w2)"
    by (rule save_thread_starter_ok [OF st a])
  have s3: "logger_call (self_logger f) INFO
              (''Saved thread starter for thread '' @ py_str E t) ?w2 = (Inr (), ?w3)"
    using lg by simp
  have b: "\<forall>j\<le>Suc (length imgs). io_fault E (io_ops ?w3 + j) = None"
  proof (intro allI impI)
    fix j
    assume "j \<le> Suc (length imgs)"
    then have "length starters + 2 + j < length starters + length imgs + 4"
      by simp
    with nofault have "io_fault E (io_ops w + (length starters + 2 + j)) = None"
      by blast
    then show "io_fault E (io_ops ?w3 + j) = None"
      by (simp add: add.assoc)
  qed
  have s4: "save_image_posts E f td t ?w3 = (Inr (), ?w4)"
    by (rule save_image_posts_ok [OF im b])
  have s5: "logger_call (self_logger f) INFO
              (''Saved image posts for thread '' @ py_str E t) ?w4 = (Inr (), ?w5)"
    using lg by simp
  have "process_thread E f t w = (Inr (), ?w5)"
    unfolding process_thread_def
    by (simp only: bind_io_def s0 s1 s2 s3 s4 s5 prod.case sum.case)
  also have "?w5 =
      w\<lparr>requests := requests w @ [thread_url E f t],
         logged := logged w @
           [(INFO, ''Fetched thread number '' @ py_str E t),
            (INFO, ''Saving data to '' @ thread_list_path f),
            (INFO, ''Saved thread starter for thread '' @ py_str E t),
            (INFO, ''Saving data to '' @ image_path E f t),
            (INFO, ''Saved image posts for thread '' @ py_str E t)],
         io_ops := io_ops w + length starters + length imgs + 4,
         files := ((files w)(thread_list_path f \<mapsto>
                      content w (thread_list_path f) @ json_lines E starters))
                    (image_path E f t \<mapsto> json_lines E imgs),
         opened := Suc (Suc (opened w)), pending := []\<rparr>"
    using lg by (simp add: content_def)
  finally show ?thesis .
qed

lemma path_join_ends: "\<exists>pre. path_join a b = pre @ b"
proof -
  have "path_join a b = [] @ b \<or> path_join a b = a @ b \<or> path_join a b = (a @ ''/'') @ b"
    by (simp add: path_join_def)
  then show ?thesis by blast
qed

lemma thread_list_not_image_path: "thread_list_path f \<noteq> image_path E f t"
proof
  assume eq: "thread_list_path f = image_path E f t"
  obtain p1 where p1: "thread_list_path f = p1 @ ''thread_list.json''"
    unfolding thread_list_path_def using path_join_ends by blast
  obtain p2 where "image_path E f t
      = p2 @ (self_board f @ ''-'' @ py_str E t @ ''_ImageURLs.json'')"
    unfolding image_path_def using path_join_ends by blast
  then have p2: "image_path E f t
      = (p2 @ self_board f @ ''-'' @ py_str E t) @ ''_ImageURLs.json''"
    by simp
  from eq p1 p2 have "rev (p1 @ ''thread_list.json'') ! 5
      = rev ((p2 @ self_board f @ ''-'' @ py_str E t) @ ''_ImageURLs.json'') ! 5"
    by simp
  then show False
    by (simp add: nth_append)
qed

lemma fetch_and_save_thread_ok:
  assumes lg: "self_logger f"
    and get: "http_get E (length (requests w)) (thread_url E f t) = Inr td"
    and st: "thread_starter_data td = Inr starters"
    and im: "images_info (py_str E) (self_board f) td = Inr imgs"
    and nofault: "\<forall>j<length starters + length imgs + 4. io_fault E (io_ops w + j) = None"
  shows "fetch_and_save_thread E f t w =
     (Inr (),
      w\<lparr>requests := requests w @ [thread_url E f t],
         logged := logged w @
           [(INFO, ''Fetched thread number '' @ py_str E t),
            (INFO, ''Saving data to '' @ thread_list_path f),
            (INFO, ''Saved thread starter for thread '' @ py_str E t),
            (INFO, ''Saving data to '' @ image_path E f t),
            (INFO, ''Saved image posts for thread '' @ py_str E t)],
         io_ops := io_ops w + length starters + length imgs + 4,
         files := ((files w)(thread_list_path f \<mapsto>
                      content w (thread_list_path f) @ json_lines E starters))
                    (image_path E f t \<mapsto> json_lines E imgs),
         opened := Suc (Suc (opened w)), pending := []\<rparr>)"
  using process_thread_ok [OF assms]
  by (simp add: fetch_and_save_thread_def try_io_def)

lemma fetch_and_save_thread_files:
  assumes lg: "self_logger f"
    and get: "http_get E (length (requests w)) (thread_url E f t) = Inr td"
    and st: "thread_starter_data td = Inr starters"
    and im: "images_info (py_str E) (self_board f) td = Inr imgs"
    and nofault: "\<forall>j<length starters + length imgs + 4. io_fault E (io_ops w + j) = None"
    and run: "fetch_and_save_thread E f t w = (r, w')"
  shows "r = Inr () \<and> files w' (image_path E f t) = Some (json_lines E imgs)
         \<and> files w' (thread_list_path f)
             = Some (content w (thread_list_path f) @ json_lines E starters)
         \<and> requests w' = requests w @ [thread_url E f t]"
  using fetch_and_save_thread_ok [OF lg get st im nofault] run
    thread_list_not_image_path [of f E t]
  by auto

lemma sample_urls:
  "thread_url sample_env sample_fetcher (JInt 111) = ''https://a.4cdn.org/g/thread/111.json''"
  "thread_url sample_env sample_fetcher (JInt 333) = ''https://a.4cdn.org/g/thread/333.json''"
  "image_path sample_env sample_fetcher (JInt 111) = ''out/g/images/g-111_ImageURLs.json''"
  "image_path sample_env sample_fetcher (JInt 333) = ''out/g/images/g-333_ImageURLs.json''"
  "thread_list_path sample_fetcher = ''out/g/thread_list.json''"
  by (simp_all add: thread_url_def image_path_def thread_list_path_def path_join_def
        sample_env_def sample_fetcher_def BASE_URL_def dec.simps digit_def)

text \<open>
  C6. Two fetches of the same thread, one after the other, in a session with a logger and on
  a disk that does not fail, each answered with a thread that both extractions accept. Both
  return. After each, the image file of the thread holds the lines of the image posts of that
  fetch and nothing of the one before; the thread list holds what it held, then the thread
  starters of the first fetch, then those of the second, with nothing removed.
\<close>

theorem refetch_overwrites_images_appends_starters:
  assumes lg: "self_logger f"
    and nofault: "\<forall>k. io_fault E k = None"
    and get1: "http_get E (length (requests w)) (thread_url E f t) = Inr td1"
    and st1: "thread_starter_data td1 = Inr starters1"
    and im1: "images_info (py_str E) (self_board f) td1 = Inr imgs1"
    and run1: "fetch_and_save_thread E f t w = (r1, w1)"
    and get2: "http_get E (length (requests w1)) (thread_url E f t) = Inr td2"
    and st2: "thread_starter_data td2 = Inr starters2"
    and im2: "images_info (py_str E) (self_board f) td2 = Inr imgs2"
    and run2: "fetch_and_save_thread E f t w1 = (r2, w2)"
  shows "r1 = Inr () \<and> r2 = Inr ()
     \<and> content w1 (image_path E f t)
         = concat (map (\<lambda>entry. json_dumps E entry @ [nl]) imgs1)
     \<and> content w2 (image_path E f t)
         = concat (map (\<lambda>entry. json_dumps E entry @ [nl]) imgs2)
     \<and> content w1 (thread_list_path f)
         = content w (thread_list_path f)
           @ concat (map (\<lambda>entry. json_dumps E entry @ [nl]) starters1)
     \<and> content w2 (thread_list_path f)
         = content w (thread_list_path f)
           @ concat (map (\<lambda>entry. json_dumps E entry @ [nl]) starters1)
           @ concat (map (\<lambda>entry. json_dumps E entry @ [nl]) starters2)
     \<and> ((\<forall>entry\<in>set imgs2. nl \<notin> set (json_dumps E entry)) \<longrightarrow>
           lines_of (content w2 (image_path E f t)) = map (json_dumps E) imgs2)"
proof -
  from nofault have n1: "\<forall>j<length starters1 + length imgs1 + 4. io_fault E (io_ops w + j) = None"
    and n2: "\<forall>j<length starters2 + length imgs2 + 4. io_fault E (io_ops w1 + j) = None"
    by simp_all
  note a = fetch_and_save_thread_files [OF lg get1 st1 im1 n1 run1]
  note b = fetch_and_save_thread_files [OF lg get2 st2 im2 n2 run2]
  have lines: "lines_of (json_lines E imgs2) = map (json_dumps E) imgs2"
    if "\<forall>entry\<in>set imgs2. nl \<notin> set (json_dumps E entry)"
    using lines_of_json_lines [OF that] .
  from a b lines show ?thesis
    by (simp add: content_def json_lines_def)
qed

theorem refetch_overwrites_images_appends_starters_witness:
  "self_logger sample_fetcher \<and> (\<forall>k. io_fault sample_env k = None)
   \<and> http_get sample_env (length (requests fetched_catalog))
        (thread_url sample_env sample_fetcher (JInt 111)) = Inr sample_thread
   \<and> http_get sample_env
        (length (requests (snd (fetch_and_save_thread sample_env sample_fetcher (JInt 111)
                                  fetched_catalog))))
        (thread_url sample_env sample_fetcher (JInt 111)) = Inr sample_thread2
   \<and> lines_of (content
        (snd (fetch_and_save_thread sample_env sample_fetcher (JInt 111)
           (snd (fetch_and_save_thread sample_env sample_fetcher (JInt 111) fetched_catalog))))
        ''out/g/images/g-111_ImageURLs.json'')
       = map sample_dumps
           [image_of sample_str ''g''
              (JObj [(''no'', JInt 111), (''sub'', JStr ''first''), (''tim'', JInt 1700),
                     (''ext'', JStr ''.jpg'')]),
            image_of sample_str ''g''
              (JObj [(''no'', JInt 113), (''tim'', JInt 1800), (''ext'', JStr ''.png'')])]
   \<and> content
        (snd (fetch_and_save_thread sample_env sample_fetcher (JInt 111)
           (snd (fetch_and_save_thread sample_env sample_fetcher (JInt 111) fetched_catalog))))
        ''out/g/thread_list.json''
       = concat (map (\<lambda>entry. sample_dumps entry @ [nl])
           [starter_of (JObj [(''no'', JInt 111), (''sub'', JStr ''first''),
                              (''tim'', JInt 1700), (''ext'', JStr ''.jpg'')]),
            starter_of (JObj [(''no'', JInt 111), (''sub'', JStr ''first''),
                              (''tim'', JInt 1700), (''ext'', JStr ''.jpg'')])])"
proof -
  let ?a = "JObj [(''no'', JInt 111), (''sub'', JStr ''first''), (''tim'', JInt 1700),
                  (''ext'', JStr ''.jpg'')]"
  let ?c = "JObj [(''no'', JInt 113), (''tim'', JInt 1800), (''ext'', JStr ''.png'')]"
  let ?x1 = "fetch_and_save_thread sample_env sample_fetcher (JInt 111) fetched_catalog"
  let ?x2 = "fetch_and_save_thread sample_env sample_fetcher (JInt 111) (snd ?x1)"
  have lg: "self_logger sample_fetcher"
    by (simp add: sample_fetcher_def)
  have nofault: "\<forall>k. io_fault sample_env k = None"
    by (simp add: sample_env_def)
  have get1: "http_get sample_env (length (requests fetched_catalog))
                (thread_url sample_env sample_fetcher (JInt 111)) = Inr sample_thread"
    by (simp add: sample_urls) (simp add: sample_env_def sample_get_def fetched_catalog_def
          empty_world_def)
  have st1: "thread_starter_data sample_thread = Inr [starter_of ?a]"
    by (simp add: thread_starter_data_def thread_starter_posts_def sample_thread_def
          starter_record_def starter_of_def)
  have im1: "images_info (py_str sample_env) (self_board sample_fetcher) sample_thread
               = Inr [image_of sample_str ''g'' ?a]"
    by (simp add: images_info_def sample_thread_def has_tim_ext_def image_record_def
          image_of_def sample_env_def sample_fetcher_def)
  have run1: "?x1 = (fst ?x1, snd ?x1)"
    by simp
  have req1: "requests (snd ?x1) = requests fetched_catalog
                @ [thread_url sample_env sample_fetcher (JInt 111)]"
    using fetch_and_save_thread_files [OF lg get1 st1 im1 _ run1] nofault by simp
  have get2: "http_get sample_env (length (requests (snd ?x1)))
                (thread_url sample_env sample_fetcher (JInt 111)) = Inr sample_thread2"
    by (simp add: req1 sample_urls) (simp add: sample_env_def sample_get_def
          fetched_catalog_def empty_world_def)
  have st2: "thread_starter_data sample_thread2 = Inr [starter_of ?a]"
    by (simp add: thread_starter_data_def thread_starter_posts_def sample_thread2_def
          starter_record_def starter_of_def)
  have im2: "images_info (py_str sample_env) (self_board sample_fetcher) sample_thread2
               = Inr [image_of sample_str ''g'' ?a, image_of sample_str ''g'' ?c]"
    by (simp add: images_info_def sample_thread2_def has_tim_ext_def image_record_def
          image_of_def sample_env_def sample_fetcher_def)
  have run2: "?x2 = (fst ?x2, snd ?x2)"
    by simp
  have nonl: "\<forall>entry\<in>set [image_of sample_str ''g'' ?a, image_of sample_str ''g'' ?c].
                nl \<notin> set (json_dumps sample_env entry)"
    by (simp add: sample_env_def image_of_def dq_def nl_def dec.simps digit_def IMAGE_URL_def)
  have empty: "content fetched_catalog ''out/g/thread_list.json'' = []"
    by (simp add: content_def fetched_catalog_def empty_world_def)
  note T = refetch_overwrites_images_appends_starters
             [OF lg nofault get1 st1 im1 run1 get2 st2 im2 run2]
  from T nonl have
    "lines_of (content (snd ?x2) (image_path sample_env sample_fetcher (JInt 111)))
       = map (json_dumps sample_env)
           [image_of sample_str ''g'' ?a, image_of sample_str ''g'' ?c]"
    by blast
  then have images: "lines_of (content (snd ?x2) ''out/g/images/g-111_ImageURLs.json'')
       = map sample_dumps [image_of sample_str ''g'' ?a, image_of sample_str ''g'' ?c]"
    by (simp only: sample_urls) (simp add: sample_env_def)
  from T have "content (snd ?x2) (thread_list_path sample_fetcher)
       = content fetched_catalog (thread_list_path sample_fetcher)
         @ concat (map (\<lambda>entry. json_dumps sample_env entry @ [nl]) [starter_of ?a])
         @ concat (map (\<lambda>entry. json_dumps sample_env entry @ [nl]) [starter_of ?a])"
    by blast
  then have starters: "content (snd ?x2) ''out/g/thread_list.json''
       = concat (map (\<lambda>entry. sample_dumps entry @ [nl]) [starter_of ?a, starter_of ?a])"
    by (simp only: sample_urls) (simp add: empty sample_env_def)
  from lg nofault get1 get2 images starters show ?thesis
    by blast
qed

text \<open>
  C10. With an empty sequence the writer still opens the target: when the call of \<^verbatim>\<open>open\<close>
  does not fail it returns, one handle was opened, and afterwards the file exists, empty in
  overwrite mode and in append mode when it was absent, with its old contents in append mode
  when it was there. So a fetch that succeeds for a thread without image posts leaves the
  image file of the thread existing and empty.
\<close>

theorem empty_sequence_still_opens_file:
  "(io_fault E (io_ops w) = None \<longrightarrow>
      fst (save_to_json E [] fn am lg w) = Inr ()
      \<and> opened (snd (save_to_json E [] fn am lg w)) = Suc (opened w)
      \<and> files (snd (save_to_json E [] fn am lg w)) fn
          = Some (if am then (case files w fn of None \<Rightarrow> [] | Some c \<Rightarrow> c) else []))
   \<and> (self_logger f \<and> (\<forall>k. io_fault E k = None)
        \<and> http_get E (length (requests w)) (thread_url E f t) = Inr td
        \<and> thread_starter_data td = Inr starters
        \<and> images_info (py_str E) (self_board f) td = Inr [] \<longrightarrow>
      fst (fetch_and_save_thread E f t w) = Inr ()
      \<and> files (snd (fetch_and_save_thread E f t w)) (image_path E f t) = Some [])"
proof -
  have one: "fst (save_to_json E [] fn am lg w) = Inr ()
      \<and> opened (snd (save_to_json E [] fn am lg w)) = Suc (opened w)
      \<and> files (snd (save_to_json E [] fn am lg w)) fn
          = Some (if am then (case files w fn of None \<Rightarrow> [] | Some c \<Rightarrow> c) else [])"
    if "io_fault E (io_ops w) = None"
  proof -
    from save_to_json_empty [OF that, of fn am lg] show ?thesis
      by (simp add: content_def)
  qed
  have two: "fst (fetch_and_save_thread E f t w) = Inr ()
      \<and> files (snd (fetch_and_save_thread E f t w)) (image_path E f t) = Some []"
    if "self_logger f" "\<forall>k. io_fault E k = None"
       "http_get E (length (requests w)) (thread_url E f t) = Inr td"
       "thread_starter_data td = Inr starters"
       "images_info (py_str E) (self_board f) td = Inr []"
    using fetch_and_save_thread_ok [OF that(1) that(3) that(4) that(5)] that(2)
    by simp
  from one two show ?thesis
    by blast
qed

theorem empty_sequence_still_opens_file_witness:
  "io_fault sample_env (io_ops empty_world) = None
   \<and> files (snd (save_to_json sample_env [] ''out/g/thread_list.json'' True True empty_world))
       ''out/g/thread_list.json'' = Some []
   \<and> self_logger sample_fetcher \<and> (\<forall>k. io_fault sample_env k = None)
   \<and> http_get sample_env (length (requests fetched_catalog))
       (thread_url sample_env sample_fetcher (JInt 333)) = Inr sample_thread3
   \<and> images_info (py_str sample_env) (self_board sample_fetcher) sample_thread3 = Inr []
   \<and> fst (fetch_and_save_thread sample_env sample_fetcher (JInt 333) fetched_catalog) = Inr ()
   \<and> files (snd (fetch_and_save_thread sample_env sample_fetcher (JInt 333) fetched_catalog))
       ''out/g/images/g-333_ImageURLs.json'' = Some []"
proof -
  have h0: "io_fault sample_env (io_ops empty_world) = None"
    by (simp add: sample_env_def)
  have lg: "self_logger sample_fetcher"
    by (simp add: sample_fetcher_def)
  have nofault: "\<forall>k. io_fault sample_env k = None"
    by (simp add: sample_env_def)
  have get: "http_get sample_env (length (requests fetched_catalog))
               (thread_url sample_env sample_fetcher (JInt 333)) = Inr sample_thread3"
    by (simp add: sample_urls) (simp add: sample_env_def sample_get_def)
  have st: "thread_starter_data sample_thread3
              = Inr [starter_of (JObj [(''no'', JInt 333), (''sub'', JStr ''text only'')])]"
    by (simp add: thread_starter_data_def thread_starter_posts_def sample_thread3_def
          starter_record_def starter_of_def)
  have im: "images_info (py_str sample_env) (self_board sample_fetcher) sample_thread3 = Inr []"
    by (simp add: images_info_def sample_thread3_def has_tim_ext_def)
  from empty_sequence_still_opens_file
         [of sample_env empty_world "''out/g/thread_list.json''" True True sample_fetcher
            "JInt 333" sample_thread3
            "[starter_of (JObj [(''no'', JInt 333), (''sub'', JStr ''text only'')])]"]
       empty_sequence_still_opens_file
         [of sample_env fetched_catalog "''out/g/thread_list.json''" True True sample_fetcher
            "JInt 333" sample_thread3
            "[starter_of (JObj [(''no'', JInt 333), (''sub'', JStr ''text only'')])]"]
       h0 lg nofault get st im
  show ?thesis
    by (simp add: sample_urls content_def empty_world_def)
qed

section \<open>Properties of a run\<close>

lemma bind_ioE:
  assumes "bind_io m k w = (r, w')"
  obtains (raised) e where "m w = (Inl e, w')" and "r = Inl e"
        | (returned) x w1 where "m w = (Inr x, w1)" and "k x w1 = (r, w')"
  using assms by (auto simp add: bind_io_def split: prod.splits sum.splits)

lemma only_outputs_refl [simp]: "only_outputs lst ips w w"
  by (simp add: only_outputs_def)

lemma only_outputs_same_files: "files w' = files w \<Longrightarrow> only_outputs lst ips w w'"
  by (simp add: only_outputs_def content_def)

lemma only_outputs_trans:
  "only_outputs lst ips w w1 \<Longrightarrow> only_outputs lst ips w1 w2 \<Longrightarrow> only_outputs lst ips w w2"
  by (auto simp add: only_outputs_def)

lemma only_outputs_mono:
  "only_outputs lst ips w w' \<Longrightarrow> ips \<subseteq> ips' \<Longrightarrow> only_outputs lst ips' w w'"
  by (auto simp add: only_outputs_def)

lemma logger_call_frame:
  "logger_call b lv msg w = (r, w') \<Longrightarrow>
   requests w' = requests w \<and> handles w' = handles w \<and> files w' = files w"
  by (auto simp add: logger_call_def split: if_splits)

lemma fetch_thread_frame:
  "fetch_thread E f t w = (r, w') \<Longrightarrow>
   requests w' = requests w @ [thread_url E f t] \<and> handles w' = handles w
   \<and> files w' = files w"
  by (auto simp add: fetch_thread_def try_io_def session_get_def bind_io_def raise_io_def
        logger_call_def split: sum.splits if_splits)

lemma save_thread_starter_frame:
  assumes "save_thread_starter E f td w = (r, w')"
  shows "requests w' = requests w \<and> handles w' = handles w
         \<and> only_outputs (thread_list_path f) ips w w'"
proof (cases "thread_starter_data td")
  case (Inl e)
  with assms show ?thesis
    by (simp add: save_thread_starter_def bind_io_def lift_r_def)
next
  case (Inr recs)
  with assms have run:
    "save_to_json E recs (thread_list_path f) True (self_logger f) w = (r, w')"
    by (simp add: save_thread_starter_def bind_io_def lift_r_def)
  note fr = save_to_json_any(1) [OF run]
  have "\<exists>s. content w' (thread_list_path f) = content w (thread_list_path f) @ s"
  proof (cases "io_fault E (io_ops w)")
    case None
    with save_to_json_any(3) [OF run] obtain n where
      "files w' (thread_list_path f)
         = Some (content w (thread_list_path f) @ take n (json_lines E recs))"
      by auto
    then have "content w' (thread_list_path f)
                 = content w (thread_list_path f) @ take n (json_lines E recs)"
      by (simp add: content_def)
    then show ?thesis by blast
  next
    case (Some msg)
    with save_to_json_any(4) [OF run] have "files w' = files w"
      by blast
    then show ?thesis by (simp add: content_def)
  qed
  with fr show ?thesis
    by (simp add: untouched_def only_outputs_def)
qed

lemma save_image_posts_frame:
  assumes "save_image_posts E f td t w = (r, w')"
  shows "requests w' = requests w \<and> handles w' = handles w
         \<and> only_outputs (thread_list_path f) {image_path E f t} w w'"
proof (cases "images_info (py_str E) (self_board f) td")
  case (Inl e)
  with assms show ?thesis
    by (simp add: save_image_posts_def bind_io_def lift_r_def)
next
  case (Inr recs)
  with assms have run:
    "save_to_json E recs (image_path E f t) False (self_logger f) w = (r, w')"
    by (simp add: save_image_posts_def bind_io_def lift_r_def)
  from save_to_json_any(1) [OF run] thread_list_not_image_path [of f E t] show ?thesis
    by (simp add: untouched_def only_outputs_def content_def)
qed

lemma process_thread_frame:
  assumes "process_thread E f t w = (r, w')"
  shows "requests w' = requests w @ [thread_url E f t] \<and> handles w' = handles w
         \<and> only_outputs (thread_list_path f) {image_path E f t} w w'"
proof -
  let ?tl = "thread_list_path f" and ?ips = "{image_path E f t}"
  obtain r0 w0 where s0: "fetch_thread E f t w = (r0, w0)"
    by (cases "fetch_thread E f t w")
  note f0 = fetch_thread_frame [OF s0]
  then have o0: "only_outputs ?tl ?ips w w0"
    by (simp add: only_outputs_same_files)
  show ?thesis
  proof (cases r0)
    case (Inl e)
    with assms s0 have "w' = w0"
      by (simp add: process_thread_def bind_io_def)
    with f0 o0 show ?thesis by simp
  next
    case (Inr td)
    obtain r1 w1 where s1: "logger_call (self_logger f) INFO
        (''Fetched thread number '' @ py_str E t) w0 = (r1, w1)"
      by (cases "logger_call (self_logger f) INFO (''Fetched thread number '' @ py_str E t) w0")
    note f1 = logger_call_frame [OF s1]
    then have o1: "only_outputs ?tl ?ips w w1"
      using o0 only_outputs_trans [of ?tl ?ips w w0 w1] by (simp add: only_outputs_same_files)
    show ?thesis
    proof (cases r1)
      case (Inl e)
      with assms s0 s1 Inr have "w' = w1"
        by (simp add: process_thread_def bind_io_def)
      with f0 f1 o1 show ?thesis by simp
    next
      case (Inr u1)
      obtain r2 w2 where s2: "save_thread_starter E f td w1 = (r2, w2)"
        by (cases "save_thread_starter E f td w1")
      note f2 = save_thread_starter_frame [OF s2, of ?ips]
      then have o2: "only_outputs ?tl ?ips w w2"
        using o1 only_outputs_trans [of ?tl ?ips w w1 w2] by simp
      show ?thesis
      proof (cases r2)
        case (Inl e)
        with assms s0 s1 s2 \<open>r0 = Inr td\<close> \<open>r1 = Inr u1\<close> have "w' = w2"
          by (simp add: process_thread_def bind_io_def)
        with f0 f1 f2 o2 show ?thesis by simp
      next
        case (Inr u2)
        obtain r3 w3 where s3: "logger_call (self_logger f) INFO
            (''Saved thread starter for thread '' @ py_str E t) w2 = (r3, w3)"
          by (cases "logger_call (self_logger f) INFO
                       (''Saved thread starter for thread '' @ py_str E t) w2")
        note f3 = logger_call_frame [OF s3]
        then have o3: "only_outputs ?tl ?ips w w3"
          using o2 only_outputs_trans [of ?tl ?ips w w2 w3]
          by (simp add: only_outputs_same_files)
        show ?thesis
        proof (cases r3)
          case (Inl e)
          with assms s0 s1 s2 s3 \<open>r0 = Inr td\<close> \<open>r1 = Inr u1\<close> \<open>r2 = Inr u2\<close> have "w' = w3"
            by (simp add: process_thread_def bind_io_def)
          with f0 f1 f2 f3 o3 show ?thesis by simp
        next
          case (Inr u3)
          obtain r4 w4 where s4: "save_image_posts E f td t w3 = (r4, w4)"
            by (cases "save_image_posts E f td t w3")
          note f4 = save_image_posts_frame [OF s4]
          then have o4: "only_outputs ?tl ?ips w w4"
            using o3 only_outputs_trans [of ?tl ?ips w w3 w4] by simp
          show ?thesis
          proof (cases r4)
            case (Inl e)
            with assms s0 s1 s2 s3 s4 \<open>r0 = Inr td\<close> \<open>r1 = Inr u1\<close> \<open>r2 = Inr u2\<close>
              \<open>r3 = Inr u3\<close> have "w' = w4"
              by (simp add: process_thread_def bind_io_def)
            with f0 f1 f2 f3 f4 o4 show ?thesis by simp
          next
            case (Inr u4)
            with assms s0 s1 s2 s3 s4 \<open>r0 = Inr td\<close> \<open>r1 = Inr u1\<close> \<open>r2 = Inr u2\<close>
              \<open>r3 = Inr u3\<close>
            have s5: "logger_call (self_logger f) INFO
                (''Saved image posts for thread '' @ py_str E t) w4 = (r, w')"
              by (simp add: process_thread_def bind_io_def)
            note f5 = logger_call_frame [OF s5]
            then have "only_outputs ?tl ?ips w w'"
              using o4 only_outputs_trans [of ?tl ?ips w w4 w']
              by (simp add: only_outputs_same_files)
            with f0 f1 f2 f3 f4 f5 show ?thesis by simp
          qed
        qed
      qed
    qed
  qed
qed

lemma fetch_and_save_thread_frame:
  assumes "fetch_and_save_thread E f t w = (r, w')"
  shows "requests w' = requests w @ [thread_url E f t] \<and> handles w' = handles w
         \<and> only_outputs (thread_list_path f) {image_path E f t} w w'
         \<and> (self_logger f \<longrightarrow> r = Inr ())"
proof -
  obtain r1 w1 where body: "process_thread E f t w = (r1, w1)"
    by (cases "process_thread E f t w")
  note fr = process_thread_frame [OF body]
  show ?thesis
  proof (cases r1)
    case (Inr u)
    with assms body fr show ?thesis
      by (simp add: fetch_and_save_thread_def try_io_def)
  next
    case (Inl e)
    with assms body have h: "logger_call (self_logger f) ERROR
        (''Failed to process thread '' @ py_str E t @ '': '' @ snd e) w1 = (r, w')"
      by (simp add: fetch_and_save_thread_def try_io_def)
    from logger_call_frame [OF h] fr
      only_outputs_trans [of "thread_list_path f" "{image_path E f t}" w w1 w']
    have "requests w' = requests w @ [thread_url E f t] \<and> handles w' = handles w
          \<and> only_outputs (thread_list_path f) {image_path E f t} w w'"
      by (simp add: only_outputs_same_files)
    moreover from h have "self_logger f \<longrightarrow> r = Inr ()"
      by (auto simp add: logger_call_def)
    ultimately show ?thesis by blast
  qed
qed

lemma run_tasks_append:
  "run_tasks E f (xs @ ys) w =
     (case run_tasks E f xs w of (f1, w1) \<Rightarrow>
        (case run_tasks E f ys w1 of (f2, w2) \<Rightarrow> (f1 @ f2, w2)))"
  by (induction xs arbitrary: w) (auto split: prod.splits)

lemma run_tasks_frame:
  assumes lg: "self_logger f"
  shows "run_tasks E f sel w = (futures, w') \<Longrightarrow>
   requests w' = requests w @ map (thread_url E f) sel \<and> handles w' = handles w
   \<and> map fst futures = sel \<and> map snd futures = replicate (length sel) (Inr ())
   \<and> only_outputs (thread_list_path f) (image_path E f ` set sel) w w'"
proof (induction sel arbitrary: w futures w')
  case Nil
  then show ?case by simp
next
  case (Cons t rest)
  obtain r w1 where one: "fetch_and_save_thread E f t w = (r, w1)"
    by (cases "fetch_and_save_thread E f t w")
  obtain futs w2 where more: "run_tasks E f rest w1 = (futs, w2)"
    by (cases "run_tasks E f rest w1")
  from Cons.prems one more have res: "futures = (t, r) # futs" "w' = w2"
    by simp_all
  note a = fetch_and_save_thread_frame [OF one]
  note b = Cons.IH [OF more]
  from a have "only_outputs (thread_list_path f) (image_path E f ` set (t # rest)) w w1"
    by (auto elim: only_outputs_mono)
  moreover from b have
    "only_outputs (thread_list_path f) (image_path E f ` set (t # rest)) w1 w2"
    by (auto elim: only_outputs_mono)
  ultimately have "only_outputs (thread_list_path f) (image_path E f ` set (t # rest)) w w2"
    by (rule only_outputs_trans)
  with a b lg res show ?case by simp
qed

lemma observe_ok:
  "map snd futures = replicate n (Inr ()) \<Longrightarrow>
   observe E f futures w = (Inr (), w\<lparr>slept := slept w + length futures\<rparr>)"
proof (induction futures arbitrary: n w)
  case Nil
  then show ?case by (simp add: return_io_def)
next
  case (Cons fut futures)
  obtain t r where fut: "fut = (t, r)" by (cases fut)
  from Cons.prems fut obtain m where m: "n = Suc m" "r = Inr ()"
    "map snd futures = replicate m (Inr ())"
    by (cases n) auto
  from Cons.IH [OF m(3)] fut m(2) show ?case
    by (simp add: bind_io_def sleep_def)
qed

lemma run_pool_ok:
  assumes "self_logger f"
  shows "run_pool E f sel w =
     (Inr (), (snd (run_tasks E f sel w))
                \<lparr>slept := slept (snd (run_tasks E f sel w)) + length sel\<rparr>)"
proof -
  obtain futures w1 where tasks: "run_tasks E f sel w = (futures, w1)"
    by (cases "run_tasks E f sel w")
  note fr = run_tasks_frame [OF assms tasks]
  from fr have len: "length futures = length sel"
    by (metis length_map)
  from fr have "map snd futures = replicate (length sel) (Inr ())" by simp
  from observe_ok [OF this, of E f w1] tasks len show ?thesis
    by (simp add: run_pool_def)
qed

lemma fetch_catalog_ok:
  "http_get E (length (requests w)) (catalog_url f) = Inr catalog \<Longrightarrow>
   fetch_catalog E f w = (Inr catalog, w\<lparr>requests := requests w @ [catalog_url f]\<rparr>)"
  by (simp add: fetch_catalog_def try_io_def session_get_def)

lemma fetch_catalog_raises:
  "http_get E (length (requests w)) (catalog_url f) = Inl e \<Longrightarrow>
   isl (fst (fetch_catalog E f w))"
  by (simp add: fetch_catalog_def try_io_def session_get_def bind_io_def raise_io_def
        logger_call_def)

lemma select_phase_raises_iff:
  "isl (fst (select_phase E f threads offset w)) \<longleftrightarrow>
     (case http_get E (length (requests w)) (catalog_url f) of
        Inl e \<Rightarrow> True
      | Inr catalog \<Rightarrow> isl (select_threads catalog threads offset) \<or> \<not> self_logger f)"
proof (cases "http_get E (length (requests w)) (catalog_url f)")
  case (Inl e)
  from fetch_catalog_raises [OF this] Inl show ?thesis
    by (cases "fetch_catalog E f w") (auto simp add: select_phase_def bind_io_def isl_def)
next
  case (Inr catalog)
  from fetch_catalog_ok [OF this] Inr show ?thesis
    by (cases "select_threads catalog threads offset")
       (simp_all add: select_phase_def bind_io_def lift_r_def logger_call_def return_io_def)
qed

lemma select_phase_logger:
  "select_phase E f threads offset w = (Inr sel, w0) \<Longrightarrow> self_logger f"
  unfolding select_phase_def
  by (auto elim!: bind_ioE simp add: logger_call_def return_io_def split: if_splits)

lemma fetch_top_threads_selected:
  assumes "select_phase E f threads offset w = (Inr sel, w0)"
  shows "fetch_top_threads E f threads offset w =
     (Inr (), (snd (run_tasks E f sel w0))
                \<lparr>slept := slept (snd (run_tasks E f sel w0)) + length sel\<rparr>)"
  using assms run_pool_ok [OF select_phase_logger [OF assms], of E sel w0]
  by (simp add: fetch_top_threads_def try_io_def bind_io_def)

lemma fetch_top_threads_raises_iff:
  "isl (fst (fetch_top_threads E f threads offset w))
     \<longleftrightarrow> isl (fst (select_phase E f threads offset w))"
proof (cases "select_phase E f threads offset w")
  case (Pair r w0)
  show ?thesis
  proof (cases r)
    case (Inl e)
    with Pair show ?thesis
      by (simp add: fetch_top_threads_def try_io_def bind_io_def raise_io_def logger_call_def)
  next
    case (Inr sel)
    with Pair fetch_top_threads_selected [of E f threads offset w sel w0] show ?thesis
      by simp
  qed
qed

text \<open>
  What the task at position \<open>i\<close> of the selection leaves in the world at the end of all the
  tasks, when its own fetch, extractions and writes succeed, whatever the tasks before and
  after it did.
\<close>

lemma sibling_outputs:
  assumes lg: "self_logger f" and i: "i < length sel"
    and get: "http_get E (length (requests w0) + i) (thread_url E f (sel ! i)) = Inr td"
    and st: "thread_starter_data td = Inr starters"
    and im: "images_info (py_str E) (self_board f) td = Inr imgs"
    and nofault: "\<forall>j<length starters + length imgs + 4.
                    io_fault E (io_ops (snd (run_tasks E f (take i sel) w0)) + j) = None"
    and later: "\<forall>j. i < j \<and> j < length sel \<longrightarrow>
                  image_path E f (sel ! j) \<noteq> image_path E f (sel ! i)"
  shows "files (snd (run_tasks E f sel w0)) (image_path E f (sel ! i))
           = Some (json_lines E imgs)
     \<and> (\<exists>pre post. content (snd (run_tasks E f sel w0)) (thread_list_path f)
                       = pre @ json_lines E starters @ post)"
proof -
  let ?tl = "thread_list_path f" and ?ip = "image_path E f (sel ! i)"
  obtain f1 w1 where before: "run_tasks E f (take i sel) w0 = (f1, w1)"
    by (cases "run_tasks E f (take i sel) w0")
  obtain r w2 where task: "fetch_and_save_thread E f (sel ! i) w1 = (r, w2)"
    by (cases "fetch_and_save_thread E f (sel ! i) w1")
  obtain f3 w3 where after: "run_tasks E f (drop (Suc i) sel) w2 = (f3, w3)"
    by (cases "run_tasks E f (drop (Suc i) sel) w2")
  have split: "sel = take i sel @ (sel ! i # drop (Suc i) sel)"
    using i by (simp add: id_take_nth_drop [symmetric])
  have "run_tasks E f (take i sel @ (sel ! i # drop (Suc i) sel)) w0 = (f1 @ (sel ! i, r) # f3, w3)"
    using before task after by (simp add: run_tasks_append)
  with split have final: "snd (run_tasks E f sel w0) = w3"
    by simp
  from run_tasks_frame [OF lg before] i
  have "length (requests w1) = length (requests w0) + i"
    by simp
  with get have get1: "http_get E (length (requests w1)) (thread_url E f (sel ! i)) = Inr td"
    by simp
  from nofault before
  have n1: "\<forall>j<length starters + length imgs + 4. io_fault E (io_ops w1 + j) = None"
    by simp
  from fetch_and_save_thread_files [OF lg get1 st im n1 task]
  have ip2: "files w2 ?ip = Some (json_lines E imgs)"
    and tl2: "content w2 ?tl = content w1 ?tl @ json_lines E starters"
    by (simp_all add: content_def)
  from run_tasks_frame [OF lg after]
  have out: "only_outputs ?tl (image_path E f ` set (drop (Suc i) sel)) w2 w3"
    by simp
  have notlater: "?ip \<notin> image_path E f ` set (drop (Suc i) sel)"
  proof
    assume "?ip \<in> image_path E f ` set (drop (Suc i) sel)"
    then obtain t where t: "t \<in> set (drop (Suc i) sel)" and eq: "?ip = image_path E f t"
      by blast
    from t obtain k where k: "k < length (drop (Suc i) sel)" "drop (Suc i) sel ! k = t"
      by (auto simp add: in_set_conv_nth)
    then have "Suc i + k < length sel" "sel ! (Suc i + k) = t"
      by simp_all
    with later eq show False
      by (metis add_Suc less_add_Suc1)
  qed
  from out notlater thread_list_not_image_path [of f E "sel ! i"]
  have "files w3 ?ip = files w2 ?ip"
    by (auto simp add: only_outputs_def)
  moreover from out obtain s where "content w3 ?tl = content w2 ?tl @ s"
    by (auto simp add: only_outputs_def)
  ultimately show ?thesis
    using final ip2 tl2 by auto
qed

lemma sample_catalog_url:
  "catalog_url sample_fetcher = ''https://a.4cdn.org/g/catalog.json''"
  by (simp add: catalog_url_def sample_fetcher_def BASE_URL_def)

lemma sample_flatten:
  "flatten_catalog sample_catalog
     = Inr [JObj [(''no'', JInt 111)], JObj [(''no'', JInt 222)], JObj [(''no'', JInt 333)]]"
  by (simp add: flatten_catalog_def sample_catalog_def)

lemma sample_select_phase:
  "select_phase sample_env sample_fetcher 3 0 empty_world
     = (Inr [JInt 111, JInt 222, JInt 333],
        empty_world\<lparr>requests := [''https://a.4cdn.org/g/catalog.json''],
                      logged := [(INFO, ''Selected threads: [111, 222, 333]'')]\<rparr>)"
proof -
  have get: "http_get sample_env (length (requests empty_world)) (catalog_url sample_fetcher)
               = Inr sample_catalog"
    by (simp add: sample_catalog_url) (simp add: sample_env_def sample_get_def)
  have sel: "select_threads sample_catalog 3 0 = Inr [JInt 111, JInt 222, JInt 333]"
    by (simp add: select_threads_def sample_flatten py_slice_def slice_bound_def)
  have lg: "self_logger sample_fetcher"
    by (simp add: sample_fetcher_def)
  have str: "py_str sample_env (JList [JInt 111, JInt 222, JInt 333]) = ''[111, 222, 333]''"
    by (simp add: sample_env_def dec.simps digit_def)
  show ?thesis
    by (simp add: select_phase_def bind_io_def fetch_catalog_ok [OF get] lift_r_def sel lg str
          return_io_def sample_catalog_url)
       (simp add: empty_world_def)
qed

text \<open>
  C2. In a session with a logger a task never raises: whatever the body of
  \<^verbatim>\<open>fetch_and_save_thread\<close> raises (the fetch, the decoding, an extraction or a write) is
  caught there and logged as an error that names the thread, and the task returns in the
  world the body left. A run whose catalog fetch, selection and selection log return has a
  logger; it returns, and the world it leaves is the one that the tasks of the selected
  threads leave when each is run to its end, in the order of the selection, with one pause
  for each: no task is skipped, whatever the tasks before it did. So every selected thread
  is requested, in order; and for each selected thread whose answer both extractions accept
  and whose writes the disk takes, the run ends with the lines of its thread starters in the
  thread list and, when no later selected thread has the same image file, with exactly the
  lines of its image posts in its image file, whatever its siblings raised. The run raises
  exactly when the catalog fetch raises, the selection raises, or the session has no logger;
  what the threads answer and whether the disk fails play no part in that.
\<close>

theorem per_thread_failure_isolated:
  "(self_logger f \<longrightarrow>
      fst (fetch_and_save_thread E f t w) = Inr ()
      \<and> (\<forall>e w1. process_thread E f t w = (Inl e, w1) \<longrightarrow>
            fetch_and_save_thread E f t w
              = (Inr (), w1\<lparr>logged := logged w1 @
                   [(ERROR, ''Failed to process thread '' @ py_str E t @ '': '' @ snd e)]\<rparr>)))
   \<and> (\<forall>sel w0. select_phase E f threads offset w = (Inr sel, w0) \<longrightarrow>
        self_logger f
        \<and> fetch_top_threads E f threads offset w
            = (Inr (), (snd (run_tasks E f sel w0))
                         \<lparr>slept := slept (snd (run_tasks E f sel w0)) + length sel\<rparr>)
        \<and> requests (snd (fetch_top_threads E f threads offset w))
            = requests w0 @ map (thread_url E f) sel
        \<and> (\<forall>i td starters imgs.
              i < length sel
              \<and> http_get E (length (requests w0) + i) (thread_url E f (sel ! i)) = Inr td
              \<and> thread_starter_data td = Inr starters
              \<and> images_info (py_str E) (self_board f) td = Inr imgs
              \<and> (\<forall>j<length starters + length imgs + 4.
                     io_fault E (io_ops (snd (run_tasks E f (take i sel) w0)) + j) = None)
              \<and> (\<forall>j. i < j \<and> j < length sel \<longrightarrow>
                     image_path E f (sel ! j) \<noteq> image_path E f (sel ! i))
              \<longrightarrow>
              files (snd (fetch_top_threads E f threads offset w)) (image_path E f (sel ! i))
                = Some (concat (map (\<lambda>entry. json_dumps E entry @ [nl]) imgs))
              \<and> (\<exists>pre post.
                    content (snd (fetch_top_threads E f threads offset w)) (thread_list_path f)
                      = pre @ concat (map (\<lambda>entry. json_dumps E entry @ [nl]) starters)
                        @ post)))
   \<and> (isl (fst (fetch_top_threads E f threads offset w)) \<longleftrightarrow>
        (case http_get E (length (requests w)) (catalog_url f) of
           Inl e \<Rightarrow> True
         | Inr catalog \<Rightarrow> isl (select_threads catalog threads offset) \<or> \<not> self_logger f))"
proof -
  have task: "fst (fetch_and_save_thread E f t w) = Inr ()" if "self_logger f"
    using fetch_and_save_thread_frame [of E f t w "fst (fetch_and_save_thread E f t w)"
            "snd (fetch_and_save_thread E f t w)"] that
    by simp
  have caught: "fetch_and_save_thread E f t w
      = (Inr (), w1\<lparr>logged := logged w1 @
           [(ERROR, ''Failed to process thread '' @ py_str E t @ '': '' @ snd e)]\<rparr>)"
    if "self_logger f" "process_thread E f t w = (Inl e, w1)" for e w1
    using that by (simp add: fetch_and_save_thread_def try_io_def)
  have run: "self_logger f
      \<and> fetch_top_threads E f threads offset w
          = (Inr (), (snd (run_tasks E f sel w0))
                       \<lparr>slept := slept (snd (run_tasks E f sel w0)) + length sel\<rparr>)
      \<and> requests (snd (fetch_top_threads E f threads offset w))
          = requests w0 @ map (thread_url E f) sel"
    if sp: "select_phase E f threads offset w = (Inr sel, w0)" for sel w0
  proof -
    note lg = select_phase_logger [OF sp]
    note res = fetch_top_threads_selected [OF sp]
    from run_tasks_frame [OF lg, of E sel w0 "fst (run_tasks E f sel w0)"
           "snd (run_tasks E f sel w0)"]
    have "requests (snd (run_tasks E f sel w0)) = requests w0 @ map (thread_url E f) sel"
      by simp
    with lg res show ?thesis by simp
  qed
  have sibling:
    "files (snd (fetch_top_threads E f threads offset w)) (image_path E f (sel ! i))
       = Some (concat (map (\<lambda>entry. json_dumps E entry @ [nl]) imgs))
     \<and> (\<exists>pre post.
           content (snd (fetch_top_threads E f threads offset w)) (thread_list_path f)
             = pre @ concat (map (\<lambda>entry. json_dumps E entry @ [nl]) starters) @ post)"
    if sp: "select_phase E f threads offset w = (Inr sel, w0)"
      and "i < length sel"
      and "http_get E (length (requests w0) + i) (thread_url E f (sel ! i)) = Inr td"
      and "thread_starter_data td = Inr starters"
      and "images_info (py_str E) (self_board f) td = Inr imgs"
      and "\<forall>j<length starters + length imgs + 4.
             io_fault E (io_ops (snd (run_tasks E f (take i sel) w0)) + j) = None"
      and "\<forall>j. i < j \<and> j < length sel \<longrightarrow>
             image_path E f (sel ! j) \<noteq> image_path E f (sel ! i)"
    for sel w0 i td starters imgs
    using sibling_outputs [OF select_phase_logger [OF sp] that(2-7)]
      fetch_top_threads_selected [OF sp]
    by (simp add: content_def json_lines_def)
  have iff: "isl (fst (fetch_top_threads E f threads offset w)) \<longleftrightarrow>
        (case http_get E (length (requests w)) (catalog_url f) of
           Inl e \<Rightarrow> True
         | Inr catalog \<Rightarrow> isl (select_threads catalog threads offset) \<or> \<not> self_logger f)"
    using fetch_top_threads_raises_iff [of E f threads offset w]
      select_phase_raises_iff [of E f threads offset w]
    by simp
  show ?thesis
  proof (intro conjI impI allI)
    show "fst (fetch_and_save_thread E f t w) = Inr ()" if "self_logger f"
      using that by (rule task)
  qed (use caught run sibling iff in \<open>blast+\<close>)
qed

lemma sample_paths:
  "thread_url sample_env sample_fetcher (JInt 222) = ''https://a.4cdn.org/g/thread/222.json''"
  "image_path sample_env sample_fetcher (JInt 222) = ''out/g/images/g-222_ImageURLs.json''"
  by (simp_all add: thread_url_def image_path_def path_join_def
        sample_env_def sample_fetcher_def BASE_URL_def dec.simps digit_def)

theorem per_thread_failure_isolated_witness:
  "self_logger sample_fetcher
   \<and> process_thread sample_env sample_fetcher (JInt 222) fetched_catalog
       = (Inl (ConnectionError, ''connection refused''),
          fetched_catalog\<lparr>requests := [''https://a.4cdn.org/g/catalog.json'',
                                         ''https://a.4cdn.org/g/thread/222.json''],
             logged := [(ERROR, ''Error fetching thread 222: connection refused'')]\<rparr>)
   \<and> fetch_and_save_thread sample_env sample_fetcher (JInt 222) fetched_catalog
       = (Inr (),
          fetched_catalog\<lparr>requests := [''https://a.4cdn.org/g/catalog.json'',
                                         ''https://a.4cdn.org/g/thread/222.json''],
             logged := [(ERROR, ''Error fetching thread 222: connection refused''),
                        (ERROR, ''Failed to process thread 222: connection refused'')]\<rparr>)
   \<and> fst (fetch_top_threads sample_env sample_fetcher 3 0 empty_world) = Inr ()
   \<and> requests (snd (fetch_top_threads sample_env sample_fetcher 3 0 empty_world))
       = [''https://a.4cdn.org/g/catalog.json'', ''https://a.4cdn.org/g/thread/111.json'',
          ''https://a.4cdn.org/g/thread/222.json'', ''https://a.4cdn.org/g/thread/333.json'']
   \<and> files (snd (fetch_top_threads sample_env sample_fetcher 3 0 empty_world))
         ''out/g/images/g-111_ImageURLs.json''
       = Some (sample_dumps (image_of sample_str ''g''
                 (JObj [(''no'', JInt 111), (''sub'', JStr ''first''), (''tim'', JInt 1700),
                        (''ext'', JStr ''.jpg'')])) @ [nl])
   \<and> files (snd (fetch_top_threads sample_env sample_fetcher 3 0 empty_world))
         ''out/g/images/g-333_ImageURLs.json'' = Some []
   \<and> (\<exists>pre post.
         content (snd (fetch_top_threads sample_env sample_fetcher 3 0 empty_world))
           ''out/g/thread_list.json''
         = pre @ (sample_dumps (starter_of (JObj [(''no'', JInt 333),
                                                  (''sub'', JStr ''text only'')])) @ [nl])
           @ post)"
proof -
  let ?a = "JObj [(''no'', JInt 111), (''sub'', JStr ''first''), (''tim'', JInt 1700),
                  (''ext'', JStr ''.jpg'')]"
  let ?c = "JObj [(''no'', JInt 333), (''sub'', JStr ''text only'')]"
  let ?sel = "[JInt 111, JInt 222, JInt 333]"
  let ?w0 = "empty_world\<lparr>requests := [''https://a.4cdn.org/g/catalog.json''],
                          logged := [(INFO, ''Selected threads: [111, 222, 333]'')]\<rparr>"
  let ?run = "fetch_top_threads sample_env sample_fetcher 3 0 empty_world"
  let ?w1 = "fetched_catalog\<lparr>requests := [''https://a.4cdn.org/g/catalog.json'',
                                              ''https://a.4cdn.org/g/thread/222.json''],
               logged := [(ERROR, ''Error fetching thread 222: connection refused'')]\<rparr>"
  have lg: "self_logger sample_fetcher"
    by (simp add: sample_fetcher_def)
  have str: "py_str sample_env (JInt 222) = ''222''"
    by (simp add: sample_env_def dec.simps digit_def)
  have get: "\<And>k. http_get sample_env k ''https://a.4cdn.org/g/thread/222.json''
               = Inl (ConnectionError, ''connection refused'')"
    by (simp add: sample_env_def sample_get_def)
  have body: "process_thread sample_env sample_fetcher (JInt 222) fetched_catalog
                = (Inl (ConnectionError, ''connection refused''), ?w1)"
    by (simp add: process_thread_def bind_io_def fetch_thread_def try_io_def session_get_def
          sample_paths str lg raise_io_def fetched_catalog_def empty_world_def get)
  note T = per_thread_failure_isolated [of sample_fetcher sample_env "JInt 222"
             fetched_catalog]
  note R = per_thread_failure_isolated [of sample_fetcher sample_env "JInt 222"
             empty_world 3 0]
  from T lg body have task: "fetch_and_save_thread sample_env sample_fetcher (JInt 222)
      fetched_catalog
      = (Inr (), ?w1\<lparr>logged := logged ?w1 @
           [(ERROR, ''Failed to process thread '' @ py_str sample_env (JInt 222) @ '': ''
                    @ snd (ConnectionError, ''connection refused''))]\<rparr>)"
    by blast
  from R sample_select_phase have run:
    "fst ?run = Inr ()
     \<and> requests (snd ?run)
         = requests ?w0 @ map (thread_url sample_env sample_fetcher) ?sel"
    by auto
  have dumps: "json_dumps sample_env = sample_dumps"
    by (simp add: sample_env_def)
  have nofault: "\<And>k. io_fault sample_env k = None"
    by (simp add: sample_env_def)
  have st1: "thread_starter_data sample_thread = Inr [starter_of ?a]"
    by (simp add: thread_starter_data_def thread_starter_posts_def sample_thread_def
          starter_record_def starter_of_def)
  have im1: "images_info (py_str sample_env) (self_board sample_fetcher) sample_thread
               = Inr [image_of sample_str ''g'' ?a]"
    by (simp add: images_info_def sample_thread_def has_tim_ext_def image_record_def
          image_of_def sample_env_def sample_fetcher_def)
  have get1: "http_get sample_env (length (requests ?w0) + 0)
                (thread_url sample_env sample_fetcher (?sel ! 0)) = Inr sample_thread"
    by (simp add: sample_urls) (simp add: sample_env_def sample_get_def empty_world_def)
  have later1: "\<forall>j. 0 < j \<and> j < length ?sel \<longrightarrow>
      image_path sample_env sample_fetcher (?sel ! j)
        \<noteq> image_path sample_env sample_fetcher (?sel ! 0)"
  proof (intro allI impI)
    fix j :: nat
    assume "0 < j \<and> j < length ?sel"
    then have "j = 1 \<or> j = 2" by auto
    then show "image_path sample_env sample_fetcher (?sel ! j)
                 \<noteq> image_path sample_env sample_fetcher (?sel ! 0)"
      by (auto simp add: sample_urls sample_paths)
  qed
  from R sample_select_phase get1 st1 im1 nofault later1
  have first: "files (snd ?run) (image_path sample_env sample_fetcher (?sel ! 0))
      = Some (concat (map (\<lambda>entry. json_dumps sample_env entry @ [nl])
                [image_of sample_str ''g'' ?a]))"
    by (auto simp del: nth_Cons_0)
  have st3: "thread_starter_data sample_thread3 = Inr [starter_of ?c]"
    by (simp add: thread_starter_data_def thread_starter_posts_def sample_thread3_def
          starter_record_def starter_of_def)
  have im3: "images_info (py_str sample_env) (self_board sample_fetcher) sample_thread3
               = Inr []"
    by (simp add: images_info_def sample_thread3_def has_tim_ext_def)
  have get3: "http_get sample_env (length (requests ?w0) + 2)
                (thread_url sample_env sample_fetcher (?sel ! 2)) = Inr sample_thread3"
    by (simp add: sample_urls) (simp add: sample_env_def sample_get_def)
  have later3: "\<forall>j. 2 < j \<and> j < length ?sel \<longrightarrow>
      image_path sample_env sample_fetcher (?sel ! j)
        \<noteq> image_path sample_env sample_fetcher (?sel ! 2)"
  proof (intro allI impI)
    fix j :: nat
    assume "2 < j \<and> j < length ?sel"
    then have "2 < j \<and> j < 3" by simp
    then have False by arith
    then show "image_path sample_env sample_fetcher (?sel ! j)
                 \<noteq> image_path sample_env sample_fetcher (?sel ! 2)" ..
  qed
  have two: "(2::nat) < length ?sel"
    by simp
  from R have R3: "\<And>sel w0 i td starters imgs.
      select_phase sample_env sample_fetcher 3 0 empty_world = (Inr sel, w0) \<Longrightarrow>
      i < length sel \<Longrightarrow>
      http_get sample_env (length (requests w0) + i)
        (thread_url sample_env sample_fetcher (sel ! i)) = Inr td \<Longrightarrow>
      thread_starter_data td = Inr starters \<Longrightarrow>
      images_info (py_str sample_env) (self_board sample_fetcher) td = Inr imgs \<Longrightarrow>
      \<forall>j<length starters + length imgs + 4.
         io_fault sample_env
           (io_ops (snd (run_tasks sample_env sample_fetcher (take i sel) w0)) + j) = None \<Longrightarrow>
      \<forall>j. i < j \<and> j < length sel \<longrightarrow>
         image_path sample_env sample_fetcher (sel ! j)
           \<noteq> image_path sample_env sample_fetcher (sel ! i) \<Longrightarrow>
      files (snd ?run) (image_path sample_env sample_fetcher (sel ! i))
        = Some (concat (map (\<lambda>entry. json_dumps sample_env entry @ [nl]) imgs))
      \<and> (\<exists>pre post. content (snd ?run) (thread_list_path sample_fetcher)
             = pre @ concat (map (\<lambda>entry. json_dumps sample_env entry @ [nl]) starters)
               @ post)"
    by blast
  have nf3: "\<forall>j<length [starter_of ?c] + length ([] :: json list) + 4.
      io_fault sample_env
        (io_ops (snd (run_tasks sample_env sample_fetcher (take 2 ?sel) ?w0)) + j) = None"
    using nofault by simp
  note third = R3 [OF sample_select_phase two get3 st3 im3 nf3 later3]
  from third have f3: "files (snd ?run) ''out/g/images/g-333_ImageURLs.json'' = Some []"
    by (simp add: sample_urls)
  from third obtain pre post where
    "content (snd ?run) (thread_list_path sample_fetcher)
       = pre @ concat (map (\<lambda>entry. json_dumps sample_env entry @ [nl]) [starter_of ?c])
         @ post"
    by blast
  then have "content (snd ?run) ''out/g/thread_list.json''
       = pre @ (sample_dumps (starter_of ?c) @ [nl]) @ post"
    by (simp add: sample_urls dumps)
  then have l3: "\<exists>pre post. content (snd ?run) ''out/g/thread_list.json''
       = pre @ (sample_dumps (starter_of ?c) @ [nl]) @ post"
    by blast
  from first have f1: "files (snd ?run) ''out/g/images/g-111_ImageURLs.json''
       = Some (sample_dumps (image_of sample_str ''g'' ?a) @ [nl])"
    by (simp add: sample_urls dumps)
  have urls:
    "thread_url sample_env sample_fetcher (JInt 111) = ''https://a.4cdn.org/g/thread/111.json''"
    "thread_url sample_env sample_fetcher (JInt 333) = ''https://a.4cdn.org/g/thread/333.json''"
    by (simp_all add: sample_urls)
  from run have r1: "fst ?run = Inr ()"
    and r2: "requests (snd ?run)
       = [''https://a.4cdn.org/g/catalog.json'', ''https://a.4cdn.org/g/thread/111.json'',
          ''https://a.4cdn.org/g/thread/222.json'', ''https://a.4cdn.org/g/thread/333.json'']"
    by (simp_all add: urls sample_paths)
  from task have t2: "fetch_and_save_thread sample_env sample_fetcher (JInt 222)
      fetched_catalog
      = (Inr (),
          fetched_catalog\<lparr>requests := [''https://a.4cdn.org/g/catalog.json'',
                                         ''https://a.4cdn.org/g/thread/222.json''],
             logged := [(ERROR, ''Error fetching thread 222: connection refused''),
                        (ERROR, ''Failed to process thread 222: connection refused'')]\<rparr>)"
    by (simp add: str)
  from lg body t2 r1 r2 f1 f3 l3 show ?thesis
    by blast
qed

section \<open>Properties of the selection\<close>

lemma py_slice_nonneg:
  assumes "0 \<le> a" and "0 \<le> n"
  shows "py_slice xs a (a + n) = take (nat n) (drop (nat a) xs)"
proof (cases "nat a < length xs")
  case False
  with assms show ?thesis
    by (simp add: py_slice_def slice_bound_def Let_def)
next
  case True
  with assms have start: "slice_bound (length xs) a = nat a"
    by (simp add: slice_bound_def)
  from assms have stop: "slice_bound (length xs) (a + n) = min (nat a + nat n) (length xs)"
    by (simp add: slice_bound_def nat_add_distrib)
  have "min (nat a + nat n) (length xs) - nat a = min (nat n) (length xs - nat a)"
    using True by arith
  then show ?thesis
    by (simp add: py_slice_def Let_def start stop min_def)
qed

lemma py_slice_past_end:
  assumes "int (length xs) \<le> a"
  shows "py_slice xs a b = []"
proof -
  from assms have "slice_bound (length xs) a = length xs"
    by (simp add: slice_bound_def)
  moreover have "slice_bound (length xs) b \<le> length xs"
    by (auto simp add: slice_bound_def max_def)
  ultimately show ?thesis
    by (simp add: py_slice_def Let_def)
qed

lemma length_slice:
  assumes "0 \<le> a" and "0 \<le> n"
  shows "int (length (take (nat n) (drop (nat a) xs)))
           = max 0 (min n (int (length xs) - a))"
  using assms by (simp add: min_def max_def) linarith

lemma extend_pages_concat:
  "list_all2 (\<lambda>page ts. bind_r (py_get page ''threads'' (JList [])) py_iter = Inr ts)
     pages tss \<Longrightarrow>
   extend_pages all_threads pages = Inr (all_threads @ concat tss)"
proof (induction pages tss arbitrary: all_threads rule: list_all2_induct)
  case Nil
  show ?case by simp
next
  case (Cons page pages ts tss)
  from Cons.hyps(1) obtain tv where
    tv: "py_get page ''threads'' (JList []) = Inr tv" and ts: "py_iter tv = Inr ts"
    by (cases "py_get page ''threads'' (JList [])") (simp_all add: bind_r_def)
  have "extend_pages all_threads (page # pages) = extend_pages (all_threads @ ts) pages"
    by (simp add: bind_r_def tv ts)
  also have "\<dots> = Inr ((all_threads @ ts) @ concat tss)"
    by (rule Cons.IH)
  finally show ?case by simp
qed

lemma map_r_raises_iff:
  "isl (map_r g xs) \<longleftrightarrow> (\<exists>x\<in>set xs. isl (g x))"
proof (induction xs)
  case Nil
  show ?case by simp
next
  case (Cons x xs)
  show ?case
  proof (cases "g x")
    case (Inl e)
    then show ?thesis by (simp add: bind_r_def)
  next
    case (Inr y)
    with Cons.IH show ?thesis
      by (cases "map_r g xs") (simp_all add: bind_r_def)
  qed
qed

lemma py_getitem_raises_iff:
  "isl (py_getitem p key) \<longleftrightarrow> \<not> (is_dict p \<and> has_key key p)"
  by (cases p) (auto split: option.splits)

text \<open>
  C1, as the code has it. Take a catalog that iterates into pages, each page with a
  \<^verbatim>\<open>threads\<close> value (the empty list when the page has none) that iterates into its thread
  summaries, and a count and an offset that are not negative. The flattened catalog is the
  summaries of the pages, page after page, each page's in their order. The slice
  \<^verbatim>\<open>[offset:offset + threads]\<close> is the contiguous part of it that starts at \<open>offset\<close> and has
  at most \<open>threads\<close> elements: \<open>max 0 (min threads (T - offset))\<close> of them for \<open>T\<close>
  summaries. The selection raises exactly when a summary of the slice is not a dict with a
  \<^verbatim>\<open>no\<close> field; otherwise it is the \<^verbatim>\<open>no\<close> field of each summary of the slice, in order,
  and a session with a logger that receives this catalog logs the selection and returns
  after requesting exactly these threads, in order. When the offset is \<open>T\<close> or more the
  selection is empty, and such a session returns after the catalog request and the selection
  log: no thread is requested and no file is touched.
\<close>

theorem selection_is_catalog_slice:
  assumes "0 \<le> threads" and "0 \<le> offset"
    and "py_iter catalog = Inr pages"
    and "list_all2 (\<lambda>page ts. bind_r (py_get page ''threads'' (JList [])) py_iter = Inr ts)
           pages tss"
  shows "flatten_catalog catalog = Inr (concat tss)
     \<and> int (length (take (nat threads) (drop (nat offset) (concat tss))))
         = max 0 (min threads (int (length (concat tss)) - offset))
     \<and> (isl (select_threads catalog threads offset) \<longleftrightarrow>
          (\<exists>thread\<in>set (take (nat threads) (drop (nat offset) (concat tss))).
              \<not> (is_dict thread \<and> has_key ''no'' thread)))
     \<and> ((\<forall>thread\<in>set (take (nat threads) (drop (nat offset) (concat tss))).
            is_dict thread \<and> has_key ''no'' thread) \<longrightarrow>
          select_threads catalog threads offset
            = Inr (map (\<lambda>thread. field_or thread ''no'' JNull)
                     (take (nat threads) (drop (nat offset) (concat tss))))
          \<and> (self_logger f
               \<and> http_get E (length (requests w)) (catalog_url f) = Inr catalog \<longrightarrow>
             select_phase E f threads offset w
               = (Inr (map (\<lambda>thread. field_or thread ''no'' JNull)
                        (take (nat threads) (drop (nat offset) (concat tss)))),
                  w\<lparr>requests := requests w @ [catalog_url f],
                    logged := logged w @
                      [(INFO, ''Selected threads: '' @ py_str E (JList
                         (map (\<lambda>thread. field_or thread ''no'' JNull)
                            (take (nat threads) (drop (nat offset) (concat tss))))))]\<rparr>)
             \<and> fst (fetch_top_threads E f threads offset w) = Inr ()
             \<and> requests (snd (fetch_top_threads E f threads offset w))
                 = requests w @ catalog_url f
                     # map (\<lambda>thread. thread_url E f (field_or thread ''no'' JNull))
                         (take (nat threads) (drop (nat offset) (concat tss)))))
     \<and> (int (length (concat tss)) \<le> offset \<longrightarrow>
          select_threads catalog threads offset = Inr []
          \<and> (self_logger f
               \<and> http_get E (length (requests w)) (catalog_url f) = Inr catalog \<longrightarrow>
             fetch_top_threads E f threads offset w
               = (Inr (), w\<lparr>requests := requests w @ [catalog_url f],
                             logged := logged w @
                               [(INFO, ''Selected threads: '' @ py_str E (JList []))]\<rparr>)))"
proof -
  let ?slice = "take (nat threads) (drop (nat offset) (concat tss))"
  let ?nos = "map (\<lambda>thread. field_or thread ''no'' JNull) ?slice"
  have flat: "flatten_catalog catalog = Inr (concat tss)"
    using extend_pages_concat [OF assms(4), of "[]"]
    by (simp add: flatten_catalog_def bind_r_def assms(3))
  have sel: "select_threads catalog threads offset
               = map_r (\<lambda>thread. py_getitem thread ''no'') ?slice"
    using assms(1,2) by (simp add: select_threads_def flat bind_r_def py_slice_nonneg)
  have len: "int (length ?slice) = max 0 (min threads (int (length (concat tss)) - offset))"
    using assms(2) assms(1) by (rule length_slice)
  have raises: "isl (select_threads catalog threads offset) \<longleftrightarrow>
      (\<exists>thread\<in>set ?slice. \<not> (is_dict thread \<and> has_key ''no'' thread))"
    by (simp only: sel map_r_raises_iff py_getitem_raises_iff)
  have nos: "select_threads catalog threads offset = Inr ?nos"
    if "\<forall>thread\<in>set ?slice. is_dict thread \<and> has_key ''no'' thread"
  proof -
    from that have "\<forall>thread\<in>set ?slice.
        py_getitem thread ''no'' = Inr (field_or thread ''no'' JNull)"
      by (simp add: py_getitem_dict)
    then show ?thesis
      by (simp only: sel map_r_total)
  qed
  have phase: "select_phase E f threads offset w
      = (Inr ?nos, w\<lparr>requests := requests w @ [catalog_url f],
                      logged := logged w @
                        [(INFO, ''Selected threads: '' @ py_str E (JList ?nos))]\<rparr>)"
    if "\<forall>thread\<in>set ?slice. is_dict thread \<and> has_key ''no'' thread" "self_logger f"
       "http_get E (length (requests w)) (catalog_url f) = Inr catalog"
    using nos [OF that(1)] that(2) fetch_catalog_ok [OF that(3)]
    by (simp add: select_phase_def bind_io_def lift_r_def return_io_def logger_call_def)
  have run: "fst (fetch_top_threads E f threads offset w) = Inr ()
      \<and> requests (snd (fetch_top_threads E f threads offset w))
          = requests w @ catalog_url f
              # map (\<lambda>thread. thread_url E f (field_or thread ''no'' JNull)) ?slice"
    if "\<forall>thread\<in>set ?slice. is_dict thread \<and> has_key ''no'' thread" "self_logger f"
       "http_get E (length (requests w)) (catalog_url f) = Inr catalog"
  proof -
    note sp = phase [OF that]
    let ?w0 = "w\<lparr>requests := requests w @ [catalog_url f],
                  logged := logged w @
                    [(INFO, ''Selected threads: '' @ py_str E (JList ?nos))]\<rparr>"
    from run_tasks_frame [OF that(2), of E ?nos ?w0 "fst (run_tasks E f ?nos ?w0)"
           "snd (run_tasks E f ?nos ?w0)"]
    have "requests (snd (run_tasks E f ?nos ?w0))
            = requests ?w0 @ map (thread_url E f) ?nos"
      by simp
    with fetch_top_threads_selected [OF sp] show ?thesis
      by (simp add: comp_def)
  qed
  have none: "select_threads catalog threads offset = Inr []"
    if "int (length (concat tss)) \<le> offset"
    using that by (simp add: select_threads_def flat bind_r_def py_slice_past_end)
  have stop: "fetch_top_threads E f threads offset w
               = (Inr (), w\<lparr>requests := requests w @ [catalog_url f],
                             logged := logged w @
                               [(INFO, ''Selected threads: '' @ py_str E (JList []))]\<rparr>)"
    if "int (length (concat tss)) \<le> offset" "self_logger f"
       "http_get E (length (requests w)) (catalog_url f) = Inr catalog"
    using none [OF that(1)] that(2) fetch_catalog_ok [OF that(3)]
    by (simp add: fetch_top_threads_def try_io_def bind_io_def select_phase_def lift_r_def
          return_io_def run_pool_def logger_call_def sleep_def)
  from flat len raises nos phase run none stop show ?thesis
    by blast
qed

theorem selection_is_catalog_slice_witness:
  "flatten_catalog sample_catalog
     = Inr [JObj [(''no'', JInt 111)], JObj [(''no'', JInt 222)], JObj [(''no'', JInt 333)]]
   \<and> \<not> isl (select_threads sample_catalog 2 1)
   \<and> select_threads sample_catalog 2 1 = Inr [JInt 222, JInt 333]
   \<and> select_phase sample_env sample_fetcher 2 1 empty_world
       = (Inr [JInt 222, JInt 333],
          empty_world\<lparr>requests := [''https://a.4cdn.org/g/catalog.json''],
                        logged := [(INFO, ''Selected threads: [222, 333]'')]\<rparr>)
   \<and> fst (fetch_top_threads sample_env sample_fetcher 2 1 empty_world) = Inr ()
   \<and> requests (snd (fetch_top_threads sample_env sample_fetcher 2 1 empty_world))
       = [''https://a.4cdn.org/g/catalog.json'', ''https://a.4cdn.org/g/thread/222.json'',
          ''https://a.4cdn.org/g/thread/333.json'']
   \<and> select_threads sample_catalog 2 5 = Inr []
   \<and> fetch_top_threads sample_env sample_fetcher 2 5 empty_world
       = (Inr (), empty_world\<lparr>requests := [''https://a.4cdn.org/g/catalog.json''],
                                logged := [(INFO, ''Selected threads: []'')]\<rparr>)"
proof -
  let ?pages = "[JObj [(''page'', JInt 1), (''threads'', JList [JObj [(''no'', JInt 111)],
                                                                 JObj [(''no'', JInt 222)]])],
                 JObj [(''page'', JInt 2), (''threads'', JList [JObj [(''no'', JInt 333)]])]]"
  let ?tss = "[[JObj [(''no'', JInt 111)], JObj [(''no'', JInt 222)]],
               [JObj [(''no'', JInt 333)]]]"
  have h0: "(0::int) \<le> 2" "(0::int) \<le> 1" "(0::int) \<le> 5"
    by simp_all
  have it: "py_iter sample_catalog = Inr ?pages"
    by (simp add: sample_catalog_def)
  have pg: "list_all2 (\<lambda>page ts. bind_r (py_get page ''threads'' (JList [])) py_iter = Inr ts)
              ?pages ?tss"
    by (simp add: bind_r_def)
  have lg: "self_logger sample_fetcher"
    by (simp add: sample_fetcher_def)
  have get: "http_get sample_env (length (requests empty_world)) (catalog_url sample_fetcher)
               = Inr sample_catalog"
    by (simp add: sample_catalog_url) (simp add: sample_env_def sample_get_def)
  have str: "py_str sample_env (JList [JInt 222, JInt 333]) = ''[222, 333]''"
            "py_str sample_env (JList []) = ''[]''"
    by (simp_all add: sample_env_def dec.simps digit_def)
  have req: "requests empty_world = []" "logged empty_world = []"
    by (simp_all add: empty_world_def)
  note A = selection_is_catalog_slice [OF h0(1) h0(2) it pg,
             of sample_fetcher sample_env empty_world]
  note B = selection_is_catalog_slice [OF h0(1) h0(3) it pg,
             of sample_fetcher sample_env empty_world]
  from A have a: "flatten_catalog sample_catalog
     = Inr [JObj [(''no'', JInt 111)], JObj [(''no'', JInt 222)], JObj [(''no'', JInt 333)]]"
    by simp
  from A have b: "\<not> isl (select_threads sample_catalog 2 1)"
    by simp
  from A have c: "select_threads sample_catalog 2 1 = Inr [JInt 222, JInt 333]"
    by simp
  from A lg get have d: "select_phase sample_env sample_fetcher 2 1 empty_world
       = (Inr [JInt 222, JInt 333],
          empty_world\<lparr>requests := [''https://a.4cdn.org/g/catalog.json''],
                        logged := [(INFO, ''Selected threads: [222, 333]'')]\<rparr>)"
    by (simp add: sample_catalog_url str req)
  from A lg get have e: "fst (fetch_top_threads sample_env sample_fetcher 2 1 empty_world)
                           = Inr ()"
    by simp
  from A lg get have g:
    "requests (snd (fetch_top_threads sample_env sample_fetcher 2 1 empty_world))
       = [''https://a.4cdn.org/g/catalog.json'', ''https://a.4cdn.org/g/thread/222.json'',
          ''https://a.4cdn.org/g/thread/333.json'']"
    by (simp add: sample_catalog_url sample_urls sample_paths req)
  from B have h: "select_threads sample_catalog 2 5 = Inr []"
    by simp
  from B lg get have i: "fetch_top_threads sample_env sample_fetcher 2 5 empty_world
       = (Inr (), empty_world\<lparr>requests := [''https://a.4cdn.org/g/catalog.json''],
                                logged := [(INFO, ''Selected threads: []'')]\<rparr>)"
    by (simp add: sample_catalog_url str req)
  from a b c d e g h i show ?thesis
    by blast
qed

text \<open>
  C1 as stated fails outside that range. With count \<open>-1\<close> the slice of a catalog of three
  drops the last thread and two are selected where the formula gives none; with offset
  \<open>-1\<close> and count 1 nothing is selected where the formula gives one; a catalog of two
  summaries of which the second has no \<^verbatim>\<open>no\<close> field makes the selection of two from offset
  0 raise \<open>KeyError\<close>, so that nothing is selected; and a session built without a logger
  raises at the selection log even when the selection is empty.
\<close>

theorem negative_count_counterexample:
  "flatten_catalog sample_catalog
     = Inr [JObj [(''no'', JInt 111)], JObj [(''no'', JInt 222)], JObj [(''no'', JInt 333)]]
   \<and> select_threads sample_catalog (- 1) 0 = Inr [JInt 111, JInt 222]
   \<and> int (length [JInt 111, JInt 222]) \<noteq> max 0 (min (- 1) (3 - 0))
   \<and> select_threads sample_catalog 1 (- 1) = Inr []
   \<and> int (length ([] :: json list)) \<noteq> max 0 (min 1 (3 - (- 1)))
   \<and> flatten_catalog
        (JList [JObj [(''threads'', JList [JObj [(''no'', JInt 111)],
                                           JObj [(''sub'', JStr ''x'')]])]])
       = Inr [JObj [(''no'', JInt 111)], JObj [(''sub'', JStr ''x'')]]
   \<and> select_threads
        (JList [JObj [(''threads'', JList [JObj [(''no'', JInt 111)],
                                           JObj [(''sub'', JStr ''x'')]])]]) 2 0
       = Inl (KeyError, sq @ ''no'' @ sq)
   \<and> fst (fetch_top_threads sample_env (sample_fetcher\<lparr>self_logger := False\<rparr>) 2 5
            empty_world)
       = Inl (AttributeError,
             sq @ ''NoneType'' @ sq @ '' object has no attribute '' @ sq @ ''error'' @ sq)"
proof -
  have get: "http_get sample_env (length (requests empty_world))
               (catalog_url (sample_fetcher\<lparr>self_logger := False\<rparr>)) = Inr sample_catalog"
    by (simp add: catalog_url_def sample_fetcher_def BASE_URL_def)
       (simp add: sample_env_def sample_get_def)
  have sel: "select_threads sample_catalog 2 5 = Inr []"
    by (simp add: sample_flatten select_threads_def py_slice_def slice_bound_def bind_r_def)
  have run: "fst (fetch_top_threads sample_env (sample_fetcher\<lparr>self_logger := False\<rparr>) 2 5
                    empty_world)
               = Inl (AttributeError,
             sq @ ''NoneType'' @ sq @ '' object has no attribute '' @ sq @ ''error'' @ sq)"
    by (simp add: fetch_top_threads_def try_io_def bind_io_def select_phase_def lift_r_def
          fetch_catalog_ok [OF get] sel logger_call_def raise_io_def)
  have flat: "flatten_catalog
        (JList [JObj [(''threads'', JList [JObj [(''no'', JInt 111)],
                                           JObj [(''sub'', JStr ''x'')]])]])
       = Inr [JObj [(''no'', JInt 111)], JObj [(''sub'', JStr ''x'')]]"
    by (simp add: flatten_catalog_def bind_r_def)
  have bad: "select_threads
        (JList [JObj [(''threads'', JList [JObj [(''no'', JInt 111)],
                                           JObj [(''sub'', JStr ''x'')]])]]) 2 0
       = Inl (KeyError, sq @ ''no'' @ sq)"
    by (simp add: select_threads_def flat py_slice_def slice_bound_def bind_r_def)
  have neg: "select_threads sample_catalog (- 1) 0 = Inr [JInt 111, JInt 222]"
            "select_threads sample_catalog 1 (- 1) = Inr []"
    by (simp_all add: sample_flatten select_threads_def py_slice_def slice_bound_def bind_r_def)
  have ar: "int (length [JInt 111, JInt 222]) \<noteq> max 0 (min (- 1) (3 - 0))"
           "int (length ([] :: json list)) \<noteq> max 0 (min 1 (3 - (- 1)))"
    by simp_all
  from sample_flatten neg ar flat bad run show ?thesis
    by blast
qed

end
